theory Spec2Isabelle
  imports Main "HOL-Library.AList" "HOL-Library.Char_ord" "HOL-Library.List_Lexorder"
begin

section \<open>Data model\<close>

text \<open>
  The build harness (\<^verbatim>\<open>harness/build.go\<close>) works on the result of the source analyser.
  The Go declarations of these types live outside \<^verbatim>\<open>build.go\<close>; the records below carry
  the fields that \<^verbatim>\<open>build.go\<close> and the data model of the specification name.  Record
  fields share one name space, so the fields of a method argument and of a method
  are prefixed (\<open>ArgImportPath\<close> is \<^verbatim>\<open>MethodArg.ImportPath\<close>).
\<close>

text \<open>Modelled from the spec: the declaration of \<^verbatim>\<open>TypeExpr\<close> is not part of the sources;
  \<^verbatim>\<open>build.go\<close> reads only its package qualifier \<^verbatim>\<open>PkgName\<close>, the textual type expression
  is kept as \<open>Expr\<close>.\<close>

record TypeExpr =
  Expr :: string
  PkgName :: string

text \<open>Modelled from the spec: \<^verbatim>\<open>MethodArg\<close> (name, import path, type expression).\<close>

record MethodArg =
  ArgName :: string
  ArgImportPath :: string
  ArgTypeExpr :: TypeExpr

text \<open>Modelled from the spec: \<^verbatim>\<open>MethodSpec\<close>; \<open>RenderCalls\<close> maps a source line to the
  argument names of the render call on that line.\<close>

record MethodSpec =
  MethodName :: string
  Args :: "MethodArg list"
  RenderCalls :: "(nat \<times> string list) list"

text \<open>Modelled from the spec: \<^verbatim>\<open>TypeInfo\<close>.\<close>

record TypeInfo =
  StructName :: string
  ImportPath :: string
  PackageName :: string
  MethodSpecs :: "MethodSpec list"

text \<open>Modelled from the spec: \<^verbatim>\<open>SourceInfo\<close>.\<close>

record SourceInfo =
  ControllerSpecs :: "TypeInfo list"
  TestSuites :: "TypeInfo list"
  ValidationKeys :: "(string \<times> (nat \<times> string) list) list"
  InitImportPaths :: "string list"

section \<open>The import alias resolver\<close>

text \<open>
  The alias table is a Go \<^verbatim>\<open>map[string]string\<close>.  It is modelled as an association
  list read with \<^const>\<open>map_of\<close> and written with \<^const>\<open>AList.update\<close> (the assignment
  \<^verbatim>\<open>aliases[k] = v\<close>): a key occurs at most once, and nothing below depends on the
  order of the entries, as nothing in the Go code depends on the iteration order.
\<close>

type_synonym aliasMap = "(string \<times> string) list"

text \<open>\<^verbatim>\<open>containsValue\<close>: a linear search through the values of the map.\<close>

fun containsValue :: "aliasMap \<Rightarrow> string \<Rightarrow> bool" where
  "containsValue [] val = False"
| "containsValue ((k, v) # m) val = (if v = val then True else containsValue m val)"

text \<open>The verb \<^verbatim>\<open>%d\<close> of \<^verbatim>\<open>fmt.Sprintf\<close> on a counter that starts at 0 and only grows:
  the decimal digits, most significant first, no sign and no padding.\<close>

definition digit :: "nat \<Rightarrow> char" where
  "digit d = ''0123456789'' ! d"

fun itoa :: "nat \<Rightarrow> string" where
  "itoa n = (if n < 10 then [digit n] else itoa (n div 10) @ [digit (n mod 10)])"

declare itoa.simps [simp del]

lemma containsValue_iff: "containsValue m val \<longleftrightarrow> val \<in> snd ` set m"
  by (induction m val rule: containsValue.induct) auto

lemma digit_inj: "a < 10 \<Longrightarrow> b < 10 \<Longrightarrow> digit a = digit b \<Longrightarrow> a = b"
proof -
  assume a: "a < 10" and b: "b < 10" and e: "digit a = digit b"
  have d: "distinct ''0123456789''" by simp
  from a b e d show "a = b"
    unfolding digit_def by (simp add: nth_eq_iff_index_eq)
qed

lemma itoa_nonempty: "itoa n \<noteq> []"
  by (subst itoa.simps) simp

lemma itoa_inj: "itoa n = itoa m \<Longrightarrow> n = m"
proof (induction n arbitrary: m rule: itoa.induct)
  case (1 n)
  show ?case
  proof (cases "n < 10")
    case small: True
    show ?thesis
    proof (cases "m < 10")
      case True
      with small "1.prems" show ?thesis
        by (simp add: itoa.simps [of n] itoa.simps [of m] digit_inj)
    next
      case False
      with small "1.prems" itoa_nonempty [of "m div 10"] show ?thesis
        by (simp add: itoa.simps [of n] itoa.simps [of m])
    qed
  next
    case big: False
    show ?thesis
    proof (cases "m < 10")
      case True
      with big "1.prems" itoa_nonempty [of "n div 10"] show ?thesis
        by (simp add: itoa.simps [of n] itoa.simps [of m])
    next
      case False
      with big "1.prems" have q: "itoa (n div 10) = itoa (m div 10)"
        and r: "digit (n mod 10) = digit (m mod 10)"
        by (simp_all add: itoa.simps [of n] itoa.simps [of m])
      from "1.IH" [OF big q] have "n div 10 = m div 10" .
      moreover from r have "n mod 10 = m mod 10"
        by (intro digit_inj) simp_all
      ultimately show ?thesis
        by (metis div_mult_mod_eq)
    qed
  qed
qed

lemma finite_suffixed_in:
  fixes V :: "string set"
  assumes "finite V"
  shows "finite {j. pkgName @ itoa j \<in> V}"
proof -
  have "inj (\<lambda>j. pkgName @ itoa j)"
    by (rule injI) (simp add: itoa_inj)
  then have "finite ((\<lambda>j. pkgName @ itoa j) -` V)"
    using assms by (rule finite_vimageI [rotated])
  then show ?thesis
    by (simp add: vimage_def)
qed

text \<open>
  \<^verbatim>\<open>makePackageAlias\<close>.  The loop carries the counter \<open>i\<close> and the candidate \<open>alias\<close>;
  it ends because the candidates \<open>pkgName0\<close>, \<open>pkgName1\<close>, \<dots> are pairwise different
  and the map holds finitely many values.  The counter never exceeds the number of
  entries of the map (\<open>makePackageAlias_counter_bound\<close> below), so the machine width of
  Go's \<^verbatim>\<open>int\<close> plays no role.
\<close>

function makePackageAlias_loop :: "aliasMap \<Rightarrow> string \<Rightarrow> nat \<Rightarrow> string \<Rightarrow> string" where
  "makePackageAlias_loop aliases pkgName i alias =
     (if containsValue aliases alias
      then makePackageAlias_loop aliases pkgName (Suc i) (pkgName @ itoa i)
      else alias)"
  by pat_completeness auto
termination
proof (relation "measure (\<lambda>(aliases, pkgName, i, alias).
    card {j. i \<le> j \<and> pkgName @ itoa j \<in> snd ` set aliases}
    + (if containsValue aliases alias then 1 else 0))")
  show "wf (measure (\<lambda>(aliases, pkgName, i, alias).
    card {j. i \<le> j \<and> pkgName @ itoa j \<in> snd ` set aliases}
    + (if containsValue aliases alias then 1 else 0)))"
    by simp
next
  fix aliases :: aliasMap and pkgName :: string and i :: nat and cand :: string
  assume c: "containsValue aliases cand"
  let ?V = "snd ` set aliases"
  let ?S = "\<lambda>k. {j. k \<le> j \<and> pkgName @ itoa j \<in> ?V}"
  have fin: "finite (?S i)"
    by (rule finite_subset [OF _ finite_suffixed_in [of ?V pkgName]]) auto
  have "card (?S (Suc i)) + (if containsValue aliases (pkgName @ itoa i) then 1 else 0)
      \<le> card (?S i)"
  proof (cases "containsValue aliases (pkgName @ itoa i)")
    case True
    then have ins: "insert i (?S (Suc i)) = ?S i"
      by (auto simp: containsValue_iff Suc_le_eq le_less)
    have notin: "i \<notin> ?S (Suc i)" by simp
    have fin': "finite (?S (Suc i))"
      by (rule finite_subset [OF _ fin]) auto
    have "card (insert i (?S (Suc i))) = Suc (card (?S (Suc i)))"
      using fin' notin by (rule card_insert_disjoint)
    then have "card (?S i) = Suc (card (?S (Suc i)))"
      by (simp only: ins)
    with True show ?thesis by simp
  next
    case False
    have "?S (Suc i) \<subseteq> ?S i" by auto
    from card_mono [OF fin this] False show ?thesis by simp
  qed
  with c show "((aliases, pkgName, Suc i, pkgName @ itoa i), (aliases, pkgName, i, cand))
      \<in> measure (\<lambda>(aliases, pkgName, i, alias).
          card {j. i \<le> j \<and> pkgName @ itoa j \<in> snd ` set aliases}
          + (if containsValue aliases alias then 1 else 0))"
    by simp
qed

declare makePackageAlias_loop.simps [simp del]

definition makePackageAlias :: "aliasMap \<Rightarrow> string \<Rightarrow> string" where
  "makePackageAlias aliases pkgName = makePackageAlias_loop aliases pkgName 0 pkgName"

text \<open>\<^verbatim>\<open>addAlias\<close>: an import path that already has an alias keeps it.\<close>

definition addAlias :: "aliasMap \<Rightarrow> string \<Rightarrow> string \<Rightarrow> aliasMap" where
  "addAlias aliases importPath pkgName =
     (case map_of aliases importPath of
        Some alias \<Rightarrow> aliases
      | None \<Rightarrow> AList.update importPath (makePackageAlias aliases pkgName) aliases)"

text \<open>\<^verbatim>\<open>calcImportAliases\<close>: the nested \<^verbatim>\<open>range\<close> loops are folds over the slices, from
  the innermost (one method argument) to the outermost (the two arrays of specs);
  the last loop gives every init import path without an alias the alias \<^verbatim>\<open>_\<close>.\<close>

definition addMethArg :: "MethodArg \<Rightarrow> aliasMap \<Rightarrow> aliasMap" where
  "addMethArg methArg aliases =
     (if ArgImportPath methArg = [] then aliases
      else addAlias aliases (ArgImportPath methArg) (PkgName (ArgTypeExpr methArg)))"

definition addMethSpec :: "MethodSpec \<Rightarrow> aliasMap \<Rightarrow> aliasMap" where
  "addMethSpec methSpec aliases = fold addMethArg (Args methSpec) aliases"

definition addSpec :: "TypeInfo \<Rightarrow> aliasMap \<Rightarrow> aliasMap" where
  "addSpec spec aliases =
     fold addMethSpec (MethodSpecs spec) (addAlias aliases (ImportPath spec) (PackageName spec))"

definition addInitImportPath :: "string \<Rightarrow> aliasMap \<Rightarrow> aliasMap" where
  "addInitImportPath importPath aliases =
     (case map_of aliases importPath of
        Some alias \<Rightarrow> aliases
      | None \<Rightarrow> AList.update importPath ''_'' aliases)"

definition usageAliases :: "SourceInfo \<Rightarrow> aliasMap" where
  "usageAliases src = fold (fold addSpec) [ControllerSpecs src, TestSuites src] []"

definition calcImportAliases :: "SourceInfo \<Rightarrow> aliasMap" where
  "calcImportAliases src = fold addInitImportPath (InitImportPaths src) (usageAliases src)"

section \<open>Regular expressions\<close>

text \<open>
  \<^verbatim>\<open>build.go\<close> reads the output of the toolchain with two regular expressions of Go's
  \<^verbatim>\<open>regexp\<close> package.  That package documents its choice of match: the match begins as
  early as possible in the input, and among the matches that begin there it is the one
  a backtracking search finds first.  The matcher below is that backtracking search for
  the constructs the two expressions use.  \<open>ms r st\<close> lists, in the order the search
  tries them, the states in which a match of \<open>r\<close> begun in \<open>st\<close> can end; a state holds the
  character before the current position (\<open>None\<close> at the start of the text), the text
  still unread, and the text captured by each group.  The input is a byte string; the
  classes used here accept or reject every byte of a multi-byte character alike, so
  bytes and characters need not be told apart.
\<close>

datatype cclass =
    NoneOf string    \<comment> \<open>\<^verbatim>\<open>[^...]\<close>: any character not listed, a line break included\<close>
  | Digit            \<comment> \<open>\<^verbatim>\<open>\d\<close>\<close>
  | AnyChar          \<comment> \<open>\<^verbatim>\<open>.\<close>: any character but a line break\<close>

fun inClass :: "cclass \<Rightarrow> char \<Rightarrow> bool" where
  "inClass (NoneOf cs) c = (c \<notin> set cs)"
| "inClass Digit c = (c \<in> set ''0123456789'')"
| "inClass AnyChar c = (c \<noteq> CHR 0x0A)"

datatype regex =
    Lit string        \<comment> \<open>literal text\<close>
  | Plus cclass       \<comment> \<open>\<^verbatim>\<open>c+\<close>, greedy\<close>
  | Star cclass       \<comment> \<open>\<^verbatim>\<open>c*\<close>, greedy\<close>
  | Opt regex         \<comment> \<open>\<^verbatim>\<open>r?\<close>, greedy\<close>
  | Cat regex regex   \<comment> \<open>concatenation\<close>
  | Group nat regex   \<comment> \<open>capturing group with its number\<close>
  | BeginLine         \<comment> \<open>\<^verbatim>\<open>^\<close> under the flag \<^verbatim>\<open>(?m)\<close>\<close>
  | EndLine           \<comment> \<open>\<^verbatim>\<open>$\<close> under the flag \<^verbatim>\<open>(?m)\<close>\<close>

record mstate =
  prev :: "char option"
  rest :: string
  caps :: "nat \<Rightarrow> string option"

definition advance :: "nat \<Rightarrow> mstate \<Rightarrow> mstate" where
  "advance k st =
     st\<lparr>prev := (if k = 0 then prev st else Some (rest st ! (k - 1))), rest := drop k (rest st)\<rparr>"

definition capture :: "nat \<Rightarrow> mstate \<Rightarrow> mstate \<Rightarrow> mstate" where
  "capture g st st' =
     st'\<lparr>caps := (caps st')(g \<mapsto> take (length (rest st) - length (rest st')) (rest st))\<rparr>"

fun ms :: "regex \<Rightarrow> mstate \<Rightarrow> mstate list" where
  "ms (Lit w) st = (if take (length w) (rest st) = w then [advance (length w) st] else [])"
| "ms (Plus c) st =
     map (\<lambda>k. advance k st) (rev [1..<Suc (length (takeWhile (inClass c) (rest st)))])"
| "ms (Star c) st =
     map (\<lambda>k. advance k st) (rev [0..<Suc (length (takeWhile (inClass c) (rest st)))])"
| "ms (Opt r) st = ms r st @ [st]"
| "ms (Cat r1 r2) st = concat (map (ms r2) (ms r1 st))"
| "ms (Group g r) st = map (capture g st) (ms r st)"
| "ms BeginLine st = (if prev st = None \<or> prev st = Some (CHR 0x0A) then [st] else [])"
| "ms EndLine st =
     (case rest st of [] \<Rightarrow> [st] | c # cs \<Rightarrow> if c = CHR 0x0A then [st] else [])"

fun numSubexp :: "regex \<Rightarrow> nat" where
  "numSubexp (Opt r) = numSubexp r"
| "numSubexp (Cat r1 r2) = max (numSubexp r1) (numSubexp r2)"
| "numSubexp (Group g r) = max g (numSubexp r)"
| "numSubexp r = 0"

text \<open>The result of \<^verbatim>\<open>FindSubmatch\<close>: the matched text, then the text of each group; a
  group that took no part in the match is \<^verbatim>\<open>nil\<close>, which \<^verbatim>\<open>string(...)\<close> turns into the
  empty string.\<close>

definition submatches :: "regex \<Rightarrow> mstate \<Rightarrow> mstate \<Rightarrow> string list" where
  "submatches r st st' =
     take (length (rest st) - length (rest st')) (rest st)
     # map (\<lambda>g. case caps st' g of None \<Rightarrow> [] | Some s \<Rightarrow> s) [1..<Suc (numSubexp r)]"

definition matchAt :: "regex \<Rightarrow> char option \<Rightarrow> string \<Rightarrow> string list option" where
  "matchAt r pv s =
     (let st = \<lparr>prev = pv, rest = s, caps = Map.empty\<rparr>
      in case ms r st of [] \<Rightarrow> None | st' # _ \<Rightarrow> Some (submatches r st st'))"

fun findFrom :: "regex \<Rightarrow> char option \<Rightarrow> string \<Rightarrow> string list option" where
  "findFrom r pv [] = matchAt r pv []"
| "findFrom r pv (c # cs) =
     (case matchAt r pv (c # cs) of None \<Rightarrow> findFrom r (Some c) cs | Some m \<Rightarrow> Some m)"

text \<open>\<^verbatim>\<open>FindSubmatch\<close> on bytes and \<^verbatim>\<open>FindStringSubmatch\<close> on a string are the same
  search; \<open>None\<close> is the \<^verbatim>\<open>nil\<close> result.\<close>

definition FindSubmatch :: "regex \<Rightarrow> string \<Rightarrow> string list option" where
  "FindSubmatch r b = findFrom r None b"

fun seq :: "regex list \<Rightarrow> regex" where
  "seq [] = Lit []"
| "seq [r] = r"
| "seq (r # rs) = Cat r (seq rs)"

text \<open>\<^verbatim>\<open>import "([^"]+)": cannot find package\<close>\<close>

definition importErrorPattern :: regex where
  "importErrorPattern = seq [Lit ''import \"'', Group 1 (Plus (NoneOf ''\"'')),
     Lit ''\": cannot find package'']"

text \<open>\<^verbatim>\<open>(?m)^([^:#]+):(\d+):(\d+:)? (.*)$\<close>\<close>

definition errorPattern :: regex where
  "errorPattern = seq [BeginLine, Group 1 (Plus (NoneOf '':#'')), Lit '':'', Group 2 (Plus Digit),
     Lit '':'', Opt (Group 3 (seq [Plus Digit, Lit '':''])), Lit '' '', Group 4 (Star AnyChar),
     EndLine]"

definition isDigits :: "string \<Rightarrow> bool" where
  "isDigits s \<longleftrightarrow> s \<noteq> [] \<and> list_all (inClass Digit) s"

section \<open>The world around the build\<close>

text \<open>Modelled from the spec: the error record \<^verbatim>\<open>revel.Error\<close> is declared outside
  \<^verbatim>\<open>build.go\<close>; these are the fields of the error object in the specification.\<close>

record Error =
  SourceType :: string
  Title :: string
  Path :: string
  Description :: string
  Line :: int
  SourceLines :: "string list"
  MetaError :: string

text \<open>
  What \<^verbatim>\<open>Build\<close> does to its surroundings is recorded as a list of actions in the order
  in which they happen: calls that change the file system, the commands it runs, and
  the lines it writes to the loggers \<^verbatim>\<open>revel.TRACE\<close> and \<^verbatim>\<open>revel.ERROR\<close>.  A log entry
  holds the text as the call formats it (\<^verbatim>\<open>Println\<close> ends it with a line break, \<^verbatim>\<open>Fatalf\<close>
  does not); the prefix the logger puts before it is left out.
\<close>

datatype logger = TRACE | ERROR

datatype action =
    RemoveAll string
  | Mkdir string
  | Create string
  | WriteString string string
  | Close string
  | Exec "string list"
  | Log logger string

text \<open>
  What the surroundings answer is a parameter of the model: the result of the source
  analyser, the configuration, the framework's path variables, the outcome of each
  file-system call (\<open>None\<close> for success, otherwise the text of the error), and the
  outcome of each run of the toolchain.  \<open>goBuild w n\<close> is the combined output of the
  build command in pass \<open>n\<close> of the retry loop together with whether it succeeded, and
  \<open>goGet w n pkg\<close> the same for the fetch of \<open>pkg\<close> in that pass.  \<open>Join\<close> and \<open>Base\<close> are
  \<^verbatim>\<open>path.Join\<close> and \<^verbatim>\<open>path.Base\<close>, \<open>Abs\<close> is \<^verbatim>\<open>filepath.Abs\<close> (its error is dropped by the
  code), \<open>BinDir\<close> is the directory \<^verbatim>\<open>ctx.Import\<close> finds for the application.
\<close>

record world =
  ProcessSource :: "Error + SourceInfo"
  Config :: "string \<Rightarrow> string option"
  AppPath :: string
  BasePath :: string
  AppImportPath :: string
  GOOS :: string
  Join :: "string list \<Rightarrow> string"
  Base :: "string \<Rightarrow> string"
  Abs :: "string \<Rightarrow> string"
  ReadLines :: "string \<Rightarrow> string + string list"
  RenderBody :: "SourceInfo \<Rightarrow> aliasMap \<Rightarrow> string"
  os_RemoveAll :: "string \<Rightarrow> string option"
  os_Mkdir :: "string \<Rightarrow> string option"
  os_Create :: "string \<Rightarrow> string option"
  file_WriteString :: "string \<Rightarrow> string \<Rightarrow> string option"
  LookPath :: "string \<Rightarrow> string option"
  BinDir :: "string \<Rightarrow> string option"
  goBuild :: "nat \<Rightarrow> string \<times> bool"
  goGet :: "nat \<Rightarrow> string \<Rightarrow> string \<times> bool"

text \<open>\<^verbatim>\<open>Println\<close> writes its operands with a space between them and a line break at
  the end; a slice of strings is written in brackets.\<close>

fun joinWords :: "string list \<Rightarrow> string" where
  "joinWords [] = []"
| "joinWords [x] = x"
| "joinWords (x # xs) = x @ '' '' @ joinWords xs"

definition Sprintln :: "string list \<Rightarrow> string" where
  "Sprintln operands = joinWords operands @ [CHR 0x0A]"

definition showArgs :: "string list \<Rightarrow> string" where
  "showArgs args = ''['' @ joinWords args @ '']''"

section \<open>The diagnostic parser\<close>

text \<open>
  \<^verbatim>\<open>strconv.Atoi\<close> on the text of the second group, which is a non-empty run of decimal
  digits: the number they spell, or the largest \<^verbatim>\<open>int\<close> when that number is out of range
  (the error value is dropped by the code).  \<open>IntSize\<close> is the width of \<^verbatim>\<open>int\<close>, taken
  as 64 bits.  On any other text \<^verbatim>\<open>Atoi\<close> fails and the code would read the zero value.
\<close>

definition digitVal :: "char \<Rightarrow> nat" where
  "digitVal c = of_char c - 48"

definition decimal :: "string \<Rightarrow> nat" where
  "decimal s = foldl (\<lambda>acc c. 10 * acc + digitVal c) 0 s"

definition IntSize :: nat where
  "IntSize = 64"

definition Atoi :: "string \<Rightarrow> int" where
  "Atoi s = (if isDigits s then min (int (decimal s)) (2 ^ (IntSize - 1) - 1) else 0)"

text \<open>\<^verbatim>\<open>newCompileError\<close>, with the lines it writes to the error log.\<close>

definition newCompileError :: "world \<Rightarrow> string \<Rightarrow> action list \<times> Error" where
  "newCompileError w output =
     (case FindSubmatch errorPattern output of
        None \<Rightarrow>
          ([Log ERROR (Sprintln [''Failed to parse build errors:'' @ [CHR 0x0A], output])],
           \<lparr>SourceType = ''Go code'', Title = ''Go Compilation Error'', Path = [],
            Description = ''See console for build error.'', Line = 0, SourceLines = [],
            MetaError = []\<rparr>)
      | Some errorMatch \<Rightarrow>
          (let relFilename = errorMatch ! 1;
               absFilename = Abs w relFilename;
               line = Atoi (errorMatch ! 2);
               description = errorMatch ! 4;
               compileError = \<lparr>SourceType = ''Go code'', Title = ''Go Compilation Error'',
                 Path = relFilename, Description = description, Line = line, SourceLines = [],
                 MetaError = []\<rparr>
           in case ReadLines w absFilename of
                Inl err \<Rightarrow>
                  ([Log ERROR (Sprintln [absFilename @ '': '' @ err])],
                   compileError\<lparr>MetaError := absFilename @ '': '' @ err\<rparr>)
              | Inr fileStr \<Rightarrow> ([], compileError\<lparr>SourceLines := fileStr\<rparr>)))"

section \<open>The generated entry point\<close>

text \<open>
  \<^verbatim>\<open>REGISTER_CONTROLLERS\<close> opens with the import block.  Its \<^verbatim>\<open>range\<close> over the alias
  table visits the keys in sorted order and writes one line per import path: a line
  break, a tab, the alias, a space and the quoted path.  The text that follows the
  block (the closing parenthesis, the flags and the registration calls) prints type
  expressions through \<^verbatim>\<open>TypeExpr.TypeName\<close>, which is not part of the sources; it is the
  parameter \<open>RenderBody\<close>.
\<close>

definition importLine :: "string \<times> string \<Rightarrow> string" where
  "importLine kv = [CHR 0x0A, CHR 0x09] @ snd kv @ '' \"'' @ fst kv @ ''\"''"

definition importBlock :: "aliasMap \<Rightarrow> string" where
  "importBlock aliases =
     ''package main'' @ [CHR 0x0A, CHR 0x0A] @ ''import ('' @ [CHR 0x0A, CHR 0x09] @ ''\"flag\"''
     @ [CHR 0x0A, CHR 0x09] @ ''\"reflect\"'' @ [CHR 0x0A, CHR 0x09] @ ''\"github.com/robfig/revel\"''
     @ concat (map importLine (sort_key fst aliases))"

definition registerControllerSource :: "world \<Rightarrow> SourceInfo \<Rightarrow> string" where
  "registerControllerSource w sourceInfo =
     importBlock (calcImportAliases sourceInfo)
     @ RenderBody w sourceInfo (calcImportAliases sourceInfo)"

section \<open>The build orchestrator\<close>

text \<open>How \<^verbatim>\<open>Build\<close> ends: with the application it built, with a compile error, or with
  the process stopped by \<^verbatim>\<open>Fatalf\<close> or \<^verbatim>\<open>Fatalln\<close> after the message is logged.\<close>

datatype outcome = Built string | Failed Error | Exit

text \<open>One pass of the retry loop either returns from \<^verbatim>\<open>Build\<close> or comes back to the top
  of the loop after it has fetched a package.\<close>

datatype step = Return outcome | Retry string

definition attempt ::
  "world \<Rightarrow> string \<Rightarrow> string \<Rightarrow> string \<Rightarrow> nat \<Rightarrow> string set \<Rightarrow> action list \<times> step" where
  "attempt w goPath buildTags binName n gotten =
     (let buildCmd = [goPath, ''build'', ''-tags'', buildTags, ''-o'', binName,
            Join w [AppImportPath w, ''app'', ''tmp'']];
          t1 = [Log TRACE (Sprintln [''Exec:'', showArgs buildCmd]), Exec buildCmd];
          output = fst (goBuild w n)
      in if snd (goBuild w n) then (t1, Return (Built binName))
         else
           (let t2 = t1 @ [Log TRACE (Sprintln [output])];
                failure = (t2 @ fst (newCompileError w output),
                           Return (Failed (snd (newCompileError w output))))
            in case FindSubmatch importErrorPattern output of
                 None \<Rightarrow> failure
               | Some matches \<Rightarrow>
                   (let pkgName = matches ! 1
                    in if pkgName \<in> gotten then failure
                       else
                         (let getCmd = [goPath, ''get'', pkgName];
                              t3 = t2 @ [Log TRACE (Sprintln [''Exec:'', showArgs getCmd]),
                                         Exec getCmd];
                              getOutput = fst (goGet w n pkgName)
                          in if \<not> snd (goGet w n pkgName)
                             then (t3 @ [Log TRACE (Sprintln [getOutput])]
                                      @ fst (newCompileError w output),
                                   Return (Failed (snd (newCompileError w output))))
                             else (t3, Retry pkgName)))))"

text \<open>The loop \<^verbatim>\<open>for { ... }\<close>: \<open>n\<close> counts the passes, \<open>gotten\<close> is the set of packages
  already fetched, \<open>tr\<close> the actions so far.  The loop has no bound of its own; a run
  that never leaves it has the value \<open>None\<close>.\<close>

partial_function (option) buildLoop ::
  "world \<Rightarrow> string \<Rightarrow> string \<Rightarrow> string \<Rightarrow> nat \<Rightarrow> string set \<Rightarrow> action list
     \<Rightarrow> (action list \<times> outcome) option" where
  "buildLoop w goPath buildTags binName n gotten tr =
     (case attempt w goPath buildTags binName n gotten of
        (acts, Return r) \<Rightarrow> Some (tr @ acts, r)
      | (acts, Retry pkgName) \<Rightarrow>
          buildLoop w goPath buildTags binName (Suc n) (insert pkgName gotten) (tr @ acts))"

definition withDbImport :: "world \<Rightarrow> SourceInfo \<Rightarrow> SourceInfo" where
  "withDbImport w sourceInfo =
     (case Config w ''db.import'' of
        Some dbImportPath \<Rightarrow>
          sourceInfo\<lparr>InitImportPaths := InitImportPaths sourceInfo @ [dbImportPath]\<rparr>
      | None \<Rightarrow> sourceInfo)"

text \<open>
  \<^verbatim>\<open>Build\<close> up to the retry loop, given the source analysis: render the entry point,
  recreate the scratch directory, write \<^verbatim>\<open>main.go\<close>, read the build tags, find the
  toolchain and the name of the binary.  The result is the list of actions and, unless
  a \<^verbatim>\<open>Fatalf\<close> or \<^verbatim>\<open>Fatalln\<close> stopped the process, the path of \<^verbatim>\<open>main.go\<close>, the path of the
  toolchain, the build tags and the name of the binary.
\<close>

definition prepare ::
  "world \<Rightarrow> SourceInfo \<Rightarrow> action list \<times> (string \<times> string \<times> string \<times> string) option" where
  "prepare w sourceInfo =
     (let source = registerControllerSource w sourceInfo;
          tmpPath = Join w [AppPath w, ''tmp''];
          mainPath = Join w [tmpPath, ''main.go''];
          t1 = RemoveAll tmpPath
               # (case os_RemoveAll w tmpPath of
                    Some err \<Rightarrow> [Log ERROR (Sprintln [''Failed to remove tmp dir:'', err])]
                  | None \<Rightarrow> [])
      in case os_Mkdir w tmpPath of
           Some err \<Rightarrow>
             (t1 @ [Mkdir tmpPath, Log ERROR (''Failed to make tmp directory: '' @ err)], None)
         | None \<Rightarrow>
        (case os_Create w mainPath of
           Some err \<Rightarrow>
             (t1 @ [Mkdir tmpPath, Create mainPath,
                    Log ERROR (''Failed to create main.go: '' @ err)], None)
         | None \<Rightarrow>
        (case file_WriteString w mainPath source of
           Some err \<Rightarrow>
             (t1 @ [Mkdir tmpPath, Create mainPath, WriteString mainPath source,
                    Log ERROR (''Failed to write to main.go: '' @ err)], None)
         | None \<Rightarrow>
        (let t2 = t1 @ [Mkdir tmpPath, Create mainPath, WriteString mainPath source];
             buildTags = (case Config w ''build.tags'' of Some tags \<Rightarrow> tags | None \<Rightarrow> [])
         in case LookPath w ''go'' of
              None \<Rightarrow> (t2 @ [Log ERROR ''Go executable not found in PATH.''], None)
            | Some goPath \<Rightarrow>
           (case BinDir w (AppImportPath w) of
              None \<Rightarrow>
                (t2 @ [Log ERROR (Sprintln [''Failure importing'', AppImportPath w])], None)
            | Some binDir \<Rightarrow>
                (let binName = Join w [binDir, Base w (BasePath w)]
                       @ (if GOOS w = ''windows'' then ''.exe'' else [])
                 in (t2, Some (mainPath, goPath, buildTags, binName))))))))"

text \<open>\<^verbatim>\<open>Build\<close>.  The deferred \<^verbatim>\<open>Close\<close> of \<^verbatim>\<open>main.go\<close> runs when \<^verbatim>\<open>Build\<close> returns, not
  when the process is stopped.\<close>

definition Build :: "world \<Rightarrow> (action list \<times> outcome) option" where
  "Build w =
     (case ProcessSource w of
        Inl compileError \<Rightarrow> Some ([], Failed compileError)
      | Inr analysed \<Rightarrow>
          (case prepare w (withDbImport w analysed) of
             (tr, None) \<Rightarrow> Some (tr, Exit)
           | (tr, Some (mainPath, goPath, buildTags, binName)) \<Rightarrow>
               map_option (\<lambda>(tr', r). (tr' @ [Close mainPath], r))
                 (buildLoop w goPath buildTags binName 0 {} tr)))"

text \<open>
  What \<^verbatim>\<open>Build\<close> has done when at most \<open>k\<close> passes of the retry loop have run: the
  actions so far and, when \<^verbatim>\<open>Build\<close> has ended by then, how it ended.  The passes are those
  of \<open>buildLoop\<close>; the deferred \<^verbatim>\<open>Close\<close> is among the actions only when \<^verbatim>\<open>Build\<close> has
  returned.
\<close>

fun buildLoopWithin ::
  "nat \<Rightarrow> world \<Rightarrow> string \<Rightarrow> string \<Rightarrow> string \<Rightarrow> nat \<Rightarrow> string set \<Rightarrow> action list
     \<Rightarrow> action list \<times> outcome option" where
  "buildLoopWithin 0 w goPath buildTags binName n gotten tr = (tr, None)"
| "buildLoopWithin (Suc k) w goPath buildTags binName n gotten tr =
     (case attempt w goPath buildTags binName n gotten of
        (acts, Return r) \<Rightarrow> (tr @ acts, Some r)
      | (acts, Retry pkgName) \<Rightarrow>
          buildLoopWithin k w goPath buildTags binName (Suc n) (insert pkgName gotten) (tr @ acts))"

definition BuildWithin :: "nat \<Rightarrow> world \<Rightarrow> action list \<times> outcome option" where
  "BuildWithin k w =
     (case ProcessSource w of
        Inl compileError \<Rightarrow> ([], Some (Failed compileError))
      | Inr analysed \<Rightarrow>
          (case prepare w (withDbImport w analysed) of
             (tr, None) \<Rightarrow> (tr, Some Exit)
           | (tr, Some (mainPath, goPath, buildTags, binName)) \<Rightarrow>
               (case buildLoopWithin k w goPath buildTags binName 0 {} tr of
                  (tr', Some r) \<Rightarrow> (tr' @ [Close mainPath], Some r)
                | (tr', None) \<Rightarrow> (tr', None))))"

text \<open>The commands in a list of actions: the build invocations and the packages fetched.\<close>

definition execs :: "action list \<Rightarrow> string list list" where
  "execs tr = concat (map (\<lambda>a. case a of Exec args \<Rightarrow> [args] | _ \<Rightarrow> []) tr)"

definition builds :: "action list \<Rightarrow> string list list" where
  "builds tr = filter (\<lambda>args. take 1 (tl args) = [''build'']) (execs tr)"

definition fetches :: "action list \<Rightarrow> string list" where
  "fetches tr = map (\<lambda>args. args ! 2) (filter (\<lambda>args. take 1 (tl args) = [''get'']) (execs tr))"

text \<open>The package a failed build reports as missing, if any.\<close>

definition missingPackage :: "string \<Rightarrow> string option" where
  "missingPackage output = map_option (\<lambda>matches. matches ! 1) (FindSubmatch importErrorPattern output)"

text \<open>The packages the toolchain reports as missing in some pass.\<close>

definition reported :: "world \<Rightarrow> string set" where
  "reported w = {p. \<exists>n. \<not> snd (goBuild w n) \<and> missingPackage (fst (goBuild w n)) = Some p}"

section \<open>Notions used in the statements\<close>

text \<open>The alias table while real usages are processed: no import path and no alias
  occurs twice.\<close>

definition wellKeyed :: "aliasMap \<Rightarrow> bool" where
  "wellKeyed al \<longleftrightarrow> distinct (map fst al) \<and> distinct (map snd al)"

text \<open>The import paths a method and a type refer to.\<close>

definition argPaths :: "MethodSpec \<Rightarrow> string set" where
  "argPaths methSpec =
     {ArgImportPath a | a. a \<in> set (Args methSpec) \<and> ArgImportPath a \<noteq> []}"

definition specPaths :: "TypeInfo \<Rightarrow> string set" where
  "specPaths spec = insert (ImportPath spec) (\<Union>methSpec\<in>set (MethodSpecs spec). argPaths methSpec)"

text \<open>Sample inputs: a method argument, a controller with one method, a source
  analysis, and an application with two packages named \<open>controllers\<close>.\<close>

definition arg :: "string \<Rightarrow> string \<Rightarrow> MethodArg" where
  "arg path pkg =
     \<lparr>ArgName = ''x'', ArgImportPath = path, ArgTypeExpr = \<lparr>Expr = ''T'', PkgName = pkg\<rparr>\<rparr>"

definition ctrl :: "string \<Rightarrow> string \<Rightarrow> MethodArg list \<Rightarrow> TypeInfo" where
  "ctrl path pkg args =
     \<lparr>StructName = ''App'', ImportPath = path, PackageName = pkg,
      MethodSpecs = [\<lparr>MethodName = ''Index'', Args = args, RenderCalls = []\<rparr>]\<rparr>"

definition sourceOf :: "TypeInfo list \<Rightarrow> string list \<Rightarrow> SourceInfo" where
  "sourceOf specs inits =
     \<lparr>ControllerSpecs = specs, TestSuites = [], ValidationKeys = [], InitImportPaths = inits\<rparr>"

definition blogApp :: SourceInfo where
  "blogApp = sourceOf
     [ctrl ''blog/app/controllers'' ''controllers'' [arg ''blog/app/models'' ''models'', arg [] []],
      ctrl ''blog/admin/controllers'' ''controllers'' []]
     [''database/sql'', ''net/http/pprof'']"

text \<open>A sample world in which every call succeeds, no source file can be read, and the
  toolchain answers as the two arguments say; \<open>idleWorld\<close> builds at once.\<close>

fun joinSlash :: "string list \<Rightarrow> string" where
  "joinSlash [] = []"
| "joinSlash [x] = x"
| "joinSlash (x # xs) = x @ ''/'' @ joinSlash xs"

definition sampleWorld :: "(nat \<Rightarrow> string \<times> bool) \<Rightarrow> (nat \<Rightarrow> string \<Rightarrow> string \<times> bool) \<Rightarrow> world" where
  "sampleWorld buildRuns getRuns =
     \<lparr>ProcessSource = Inr blogApp,
      Config = (\<lambda>key. if key = ''db.import'' then Some ''github.com/lib/pq'' else None),
      AppPath = ''/go/src/blog/app'', BasePath = ''/go/src/blog'', AppImportPath = ''blog'',
      GOOS = ''linux'', Join = joinSlash, Base = (\<lambda>p. ''blog''), Abs = (\<lambda>p. ''/go/src/blog/'' @ p),
      ReadLines = (\<lambda>p. Inl (''open '' @ p @ '': no such file or directory'')),
      RenderBody = (\<lambda>sourceInfo aliases. [CHR 0x0A] @ '')''),
      os_RemoveAll = (\<lambda>p. None), os_Mkdir = (\<lambda>p. None), os_Create = (\<lambda>p. None),
      file_WriteString = (\<lambda>p content. None), LookPath = (\<lambda>p. Some ''/usr/bin/go''),
      BinDir = (\<lambda>p. Some ''/go/bin''), goBuild = buildRuns, goGet = getRuns\<rparr>"

definition idleWorld :: world where
  "idleWorld = sampleWorld (\<lambda>n. ([], True)) (\<lambda>n pkg. ([], True))"

text \<open>Sample toolchain output: a diagnostic, and the same diagnostic below the header
  line of its package and above a second diagnostic.  \<open>headerLines\<close> are header lines as
  the toolchain prints them, each starting with \<open>#\<close>.\<close>

definition undefinedFoo :: string where
  "undefinedFoo = ''controllers/app.go:42:10: undefined: Foo''"

definition headedOutput :: string where
  "headedOutput = ''# blog/app/controllers'' @ [CHR 0x0A] @ undefinedFoo @ [CHR 0x0A]
     @ ''controllers/app.go:57: undefined: Bar''"

definition headerLines :: "string list \<Rightarrow> string" where
  "headerLines hs = concat (map (\<lambda>h. CHR ''#'' # h @ [CHR 0x0A]) hs)"

text \<open>Sample toolchains.  In \<open>endlessWorld\<close> pass \<open>n\<close> of the build reports the package
  named by \<open>n + 1\<close> letters \<open>a\<close> as missing and every fetch succeeds.  In the other worlds
  the build reports \<^verbatim>\<open>github.com/lib/pq\<close> as missing: in \<open>retriedWorld\<close> in every pass (from
  a different file after the first) with the fetch succeeding, in \<open>unfetchableWorld\<close> with
  the fetch failing, in \<open>fetchOnceWorld\<close> in the first pass only.\<close>

definition missingOutput :: "string \<Rightarrow> string" where
  "missingOutput pkg = ''import \"'' @ pkg @ ''\": cannot find package''"

definition endlessWorld :: world where
  "endlessWorld =
     sampleWorld (\<lambda>n. (missingOutput (replicate (Suc n) CHR ''a''), False)) (\<lambda>n pkg. ([], True))"

definition pqMissingIn :: "string \<Rightarrow> string" where
  "pqMissingIn file = file @ '':3:2: import \"github.com/lib/pq\": cannot find package''"

definition retriedWorld :: world where
  "retriedWorld =
     sampleWorld (\<lambda>n. if n = 0 then (pqMissingIn ''controllers/a.go'', False)
                      else (pqMissingIn ''models/b.go'', False))
       (\<lambda>n pkg. ([], True))"

definition unfetchableWorld :: world where
  "unfetchableWorld =
     sampleWorld (\<lambda>n. (pqMissingIn ''controllers/a.go'', False))
       (\<lambda>n pkg. (''package '' @ pkg @ '': unrecognized import path'', False))"

definition fetchOnceWorld :: world where
  "fetchOnceWorld =
     sampleWorld (\<lambda>n. if n = 0 then (pqMissingIn ''controllers/a.go'', False) else ([], True))
       (\<lambda>n pkg. ([], True))"

text \<open>In \<open>twoDriversWorld\<close> the first pass reports \<^verbatim>\<open>github.com/lib/pq\<close> as missing and
  every later pass reports \<^verbatim>\<open>github.com/go-sql-driver/mysql\<close>; every fetch succeeds.\<close>

definition mysqlMissing :: string where
  "mysqlMissing = ''models/b.go:4:2: import \"github.com/go-sql-driver/mysql\": cannot find package''"

definition twoDriversWorld :: world where
  "twoDriversWorld =
     sampleWorld (\<lambda>n. if n = 0 then (pqMissingIn ''controllers/a.go'', False)
                      else (mysqlMissing, False))
       (\<lambda>n pkg. ([], True))"

text \<open>The scratch build directory, the entry point in it, and the actions that clear the
  directory: the call of \<^verbatim>\<open>os.RemoveAll\<close> and, when it fails, the line in the error log.\<close>

definition scratchDir :: "world \<Rightarrow> string" where
  "scratchDir w = Join w [AppPath w, ''tmp'']"

definition entryPoint :: "world \<Rightarrow> string" where
  "entryPoint w = Join w [scratchDir w, ''main.go'']"

definition clearing :: "world \<Rightarrow> action list" where
  "clearing w =
     RemoveAll (scratchDir w)
     # (case os_RemoveAll w (scratchDir w) of
          Some err \<Rightarrow> [Log ERROR (Sprintln [''Failed to remove tmp dir:'', err])]
        | None \<Rightarrow> [])"

text \<open>Sample worlds in which a call of the preparation fails, and one in which the
  configured database import is a package the controllers use.  In \<open>stuckTmpWorld\<close> the
  scratch directory cannot be removed; it is still there, so it cannot be created
  either.\<close>

definition stuckTmpWorld :: world where
  "stuckTmpWorld =
     idleWorld\<lparr>os_RemoveAll := (\<lambda>p. Some (''unlinkat '' @ p @ '': permission denied'')),
               os_Mkdir := (\<lambda>p. Some (''mkdir '' @ p @ '': file exists''))\<rparr>"

definition readOnlyWorld :: world where
  "readOnlyWorld = idleWorld\<lparr>os_Mkdir := (\<lambda>p. Some (''mkdir '' @ p @ '': permission denied''))\<rparr>"

definition noCreateWorld :: world where
  "noCreateWorld = idleWorld\<lparr>os_Create := (\<lambda>p. Some (''open '' @ p @ '': permission denied''))\<rparr>"

definition diskFullWorld :: world where
  "diskFullWorld =
     idleWorld\<lparr>file_WriteString := (\<lambda>p content. Some (''write '' @ p @ '': no space left on device''))\<rparr>"



section \<open>The alias table: uniqueness and coverage\<close>

lemma update_fresh: "map_of al k = None \<Longrightarrow> AList.update k v al = al @ [(k, v)]"
  by (induction al) (auto split: if_splits)

lemma loop_not_contained:
  "\<not> containsValue aliases (makePackageAlias_loop aliases pkgName i a)"
proof (induction aliases pkgName i a rule: makePackageAlias_loop.induct)
  case (1 aliases pkgName i a)
  then show ?case
    by (subst makePackageAlias_loop.simps) simp
qed

lemma loop_shape:
  "containsValue aliases a \<Longrightarrow>
   \<exists>k\<ge>i. makePackageAlias_loop aliases pkgName i a = pkgName @ itoa k
     \<and> (\<forall>j. i \<le> j \<and> j < k \<longrightarrow> containsValue aliases (pkgName @ itoa j))"
proof (induction aliases pkgName i a rule: makePackageAlias_loop.induct)
  case (1 aliases pkgName i a)
  show ?case
  proof (cases "containsValue aliases (pkgName @ itoa i)")
    case True
    from "1.IH" [OF "1.prems" True] obtain k where k: "Suc i \<le> k"
      "makePackageAlias_loop aliases pkgName (Suc i) (pkgName @ itoa i) = pkgName @ itoa k"
      "\<forall>j. Suc i \<le> j \<and> j < k \<longrightarrow> containsValue aliases (pkgName @ itoa j)"
      by blast
    have "\<forall>j. i \<le> j \<and> j < k \<longrightarrow> containsValue aliases (pkgName @ itoa j)"
    proof (intro allI impI)
      fix j assume "i \<le> j \<and> j < k"
      then have "j = i \<or> (Suc i \<le> j \<and> j < k)" by arith
      with True k(3) show "containsValue aliases (pkgName @ itoa j)" by blast
    qed
    moreover have "makePackageAlias_loop aliases pkgName i a = pkgName @ itoa k"
      using "1.prems" k(2) by (subst makePackageAlias_loop.simps) simp
    moreover have "i \<le> k" using k(1) by simp
    ultimately show ?thesis by blast
  next
    case False
    have "makePackageAlias_loop aliases pkgName i a = pkgName @ itoa i"
      using "1.prems" False
      by (subst makePackageAlias_loop.simps, simp, subst makePackageAlias_loop.simps, simp)
    then show ?thesis by auto
  qed
qed

lemma makePackageAlias_fresh: "makePackageAlias aliases pkgName \<notin> snd ` set aliases"
  using loop_not_contained [of aliases pkgName 0 pkgName]
  by (simp add: makePackageAlias_def containsValue_iff)

lemma addAlias_keys: "fst ` set (addAlias al p n) = insert p (fst ` set al)"
proof (cases "map_of al p")
  case None
  then show ?thesis by (simp add: addAlias_def dom_update)
next
  case (Some a)
  then have "p \<in> dom (map_of al)" by blast
  then have "p \<in> fst ` set al" by (simp add: dom_map_of_conv_image_fst)
  with Some show ?thesis by (auto simp: addAlias_def)
qed

lemma addAlias_wellKeyed: "wellKeyed al \<Longrightarrow> wellKeyed (addAlias al p n)"
proof (cases "map_of al p")
  case None
  assume "wellKeyed al"
  moreover from None have "p \<notin> fst ` set al"
    by (simp add: map_of_eq_None_iff)
  moreover from None have "addAlias al p n = al @ [(p, makePackageAlias al n)]"
    by (simp add: addAlias_def update_fresh)
  ultimately show ?thesis
    using makePackageAlias_fresh [of al n] by (simp add: wellKeyed_def)
next
  case (Some a)
  assume "wellKeyed al"
  with Some show ?thesis by (simp add: addAlias_def)
qed

lemma fold_wellKeyed:
  assumes "\<And>x al. wellKeyed al \<Longrightarrow> wellKeyed (f x al)"
  shows "wellKeyed al \<Longrightarrow> wellKeyed (fold f xs al)"
  by (induction xs arbitrary: al) (simp_all add: assms)

lemma fold_keys:
  assumes "\<And>x al. fst ` set (f x al) = K x \<union> fst ` set al"
  shows "fst ` set (fold f xs al) = (\<Union>x\<in>set xs. K x) \<union> fst ` set al"
  by (induction xs arbitrary: al) (auto simp: assms)

lemma addMethArg_wellKeyed: "wellKeyed al \<Longrightarrow> wellKeyed (addMethArg a al)"
  by (simp add: addMethArg_def addAlias_wellKeyed)

lemma addMethArg_keys:
  "fst ` set (addMethArg a al) = (if ArgImportPath a = [] then {} else {ArgImportPath a}) \<union> fst ` set al"
  by (simp add: addMethArg_def addAlias_keys)

lemma addMethSpec_wellKeyed: "wellKeyed al \<Longrightarrow> wellKeyed (addMethSpec methSpec al)"
  unfolding addMethSpec_def by (rule fold_wellKeyed) (rule addMethArg_wellKeyed)

lemma addMethSpec_keys: "fst ` set (addMethSpec methSpec al) = argPaths methSpec \<union> fst ` set al"
  unfolding addMethSpec_def
  by (subst fold_keys [where K = "\<lambda>a. if ArgImportPath a = [] then {} else {ArgImportPath a}"])
     (auto simp: addMethArg_keys argPaths_def split: if_splits)

lemma addSpec_wellKeyed: "wellKeyed al \<Longrightarrow> wellKeyed (addSpec spec al)"
  unfolding addSpec_def
  by (rule fold_wellKeyed) (simp_all add: addMethSpec_wellKeyed addAlias_wellKeyed)

lemma addSpec_keys: "fst ` set (addSpec spec al) = specPaths spec \<union> fst ` set al"
  unfolding addSpec_def
  by (subst fold_keys [where K = argPaths]) (auto simp: addMethSpec_keys addAlias_keys specPaths_def)

lemma usageAliases_wellKeyed: "wellKeyed (usageAliases src)"
proof -
  have e: "wellKeyed []" by (simp add: wellKeyed_def)
  have "\<And>specs al. wellKeyed al \<Longrightarrow> wellKeyed (fold addSpec specs al)"
    by (rule fold_wellKeyed) (rule addSpec_wellKeyed)
  with e show ?thesis by (simp add: usageAliases_def)
qed

lemma usageAliases_keys:
  "fst ` set (usageAliases src) = (\<Union>spec\<in>set (ControllerSpecs src @ TestSuites src). specPaths spec)"
proof -
  have "\<And>specs al. fst ` set (fold addSpec specs al) = (\<Union>spec\<in>set specs. specPaths spec) \<union> fst ` set al"
    by (rule fold_keys) (rule addSpec_keys)
  then show ?thesis by (auto simp: usageAliases_def)
qed

lemma wellKeyed_inj:
  assumes "wellKeyed al" "map_of al p = Some a" "map_of al q = Some a"
  shows "p = q"
proof -
  from assms have "(p, a) \<in> set al" "(q, a) \<in> set al"
    by (auto dest: map_of_SomeD)
  moreover from assms(1) have "inj_on snd (set al)"
    by (simp add: wellKeyed_def distinct_map)
  ultimately have "(p, a) = (q, a)"
    using inj_onD [of snd "set al" "(p, a)" "(q, a)"] by simp
  then show ?thesis by simp
qed

lemma addInitImportPath_step:
  "map_of (addInitImportPath x al) p =
     (case map_of al p of Some a \<Rightarrow> Some a
      | None \<Rightarrow> if p = x then Some ''_'' else None)"
  by (cases "map_of al x") (auto simp: addInitImportPath_def update_conv' split: option.splits)

lemma init_lookup:
  "map_of (fold addInitImportPath ps al) p =
     (case map_of al p of Some a \<Rightarrow> Some a
      | None \<Rightarrow> if p \<in> set ps then Some ''_'' else None)"
proof (induction ps arbitrary: al)
  case Nil
  then show ?case by (simp split: option.splits)
next
  case (Cons x ps)
  have "map_of (fold addInitImportPath (x # ps) al) p =
      (case map_of (addInitImportPath x al) p of Some a \<Rightarrow> Some a
       | None \<Rightarrow> if p \<in> set ps then Some ''_'' else None)"
    by (simp add: Cons.IH)
  also have "\<dots> = (case map_of al p of Some a \<Rightarrow> Some a
       | None \<Rightarrow> if p \<in> set (x # ps) then Some ''_'' else None)"
    by (simp add: addInitImportPath_step split: option.splits)
  finally show ?case .
qed

lemma calc_lookup:
  "map_of (calcImportAliases src) p =
     (case map_of (usageAliases src) p of Some a \<Rightarrow> Some a
      | None \<Rightarrow> if p \<in> set (InitImportPaths src) then Some ''_'' else None)"
  by (simp add: calcImportAliases_def init_lookup)

lemmas alias_eval =
  calcImportAliases_def usageAliases_def addSpec_def addMethSpec_def addMethArg_def addAlias_def
  addInitImportPath_def makePackageAlias_def makePackageAlias_loop.simps itoa.simps digit_def
  arg_def ctrl_def sourceOf_def

text \<open>
  Claim C1, as stated, fails: every init import path without a real usage gets the
  alias \<open>_\<close>, so two different init import paths share it.
\<close>

theorem calcImportAliases_shared_alias_counterexample:
  "map_of (calcImportAliases (sourceOf [] [''database/sql'', ''net/http/pprof''])) ''database/sql''
     = Some ''_''
   \<and> map_of (calcImportAliases (sourceOf [] [''database/sql'', ''net/http/pprof''])) ''net/http/pprof''
     = Some ''_''
   \<and> ''database/sql'' \<noteq> ''net/http/pprof''"
  by (simp add: alias_eval)

text \<open>
  Claim C1, amended.  For every \<open>SourceInfo\<close>, two different import paths of the table
  produced by \<open>calcImportAliases\<close> have the same alias only if that alias is the discard
  alias \<open>_\<close> and one of the two is an init import path that no type and no method
  argument refers to; and the import path of every \<open>TypeInfo\<close> of \<open>ControllerSpecs\<close> and
  \<open>TestSuites\<close>, and of every \<open>MethodArg\<close> with a non-empty \<open>ImportPath\<close>, is a key of the
  table.
\<close>

theorem calcImportAliases_table:
  "(\<forall>p q a. map_of (calcImportAliases src) p = Some a
        \<and> map_of (calcImportAliases src) q = Some a \<and> p \<noteq> q
      \<longrightarrow> a = ''_''
        \<and> (p \<in> set (InitImportPaths src) - dom (map_of (usageAliases src))
           \<or> q \<in> set (InitImportPaths src) - dom (map_of (usageAliases src))))
   \<and> (\<forall>spec \<in> set (ControllerSpecs src @ TestSuites src).
        ImportPath spec \<in> dom (map_of (calcImportAliases src))
        \<and> (\<forall>methSpec \<in> set (MethodSpecs spec). \<forall>methArg \<in> set (Args methSpec).
              ArgImportPath methArg \<noteq> []
              \<longrightarrow> ArgImportPath methArg \<in> dom (map_of (calcImportAliases src))))"
proof (intro conjI allI impI ballI)
  fix p q a
  assume h: "map_of (calcImportAliases src) p = Some a
        \<and> map_of (calcImportAliases src) q = Some a \<and> p \<noteq> q"
  let ?U = "usageAliases src"
  show "a = ''_''"
  proof (rule ccontr)
    assume "a \<noteq> ''_''"
    with h have "map_of ?U p = Some a" "map_of ?U q = Some a"
      by (auto simp: calc_lookup split: option.splits if_splits)
    with usageAliases_wellKeyed [of src] have "p = q" by (rule wellKeyed_inj)
    with h show False by simp
  qed
  show "p \<in> set (InitImportPaths src) - dom (map_of ?U)
           \<or> q \<in> set (InitImportPaths src) - dom (map_of ?U)"
  proof (rule ccontr)
    assume "\<not> ?thesis"
    with h have "map_of ?U p = Some a" "map_of ?U q = Some a"
      by (auto simp: calc_lookup split: option.splits if_splits)
    with usageAliases_wellKeyed [of src] have "p = q" by (rule wellKeyed_inj)
    with h show False by simp
  qed
next
  fix spec assume "spec \<in> set (ControllerSpecs src @ TestSuites src)"
  then have "ImportPath spec \<in> fst ` set (usageAliases src)"
    unfolding usageAliases_keys specPaths_def by blast
  then show "ImportPath spec \<in> dom (map_of (calcImportAliases src))"
    by (auto simp: calc_lookup dom_map_of_conv_image_fst [symmetric] domIff split: option.splits)
next
  fix spec methSpec methArg
  assume "spec \<in> set (ControllerSpecs src @ TestSuites src)"
    "methSpec \<in> set (MethodSpecs spec)" "methArg \<in> set (Args methSpec)"
    "ArgImportPath methArg \<noteq> []"
  then have "ArgImportPath methArg \<in> fst ` set (usageAliases src)"
    unfolding usageAliases_keys specPaths_def argPaths_def by blast
  then show "ArgImportPath methArg \<in> dom (map_of (calcImportAliases src))"
    by (auto simp: calc_lookup dom_map_of_conv_image_fst [symmetric] domIff split: option.splits)
qed

lemma blogApp_aliases:
  "calcImportAliases blogApp =
     [(''blog/app/controllers'', ''controllers''), (''blog/app/models'', ''models''),
      (''blog/admin/controllers'', ''controllers0''), (''database/sql'', ''_''),
      (''net/http/pprof'', ''_'')]"
  by (simp add: alias_eval blogApp_def)


theorem calcImportAliases_table_witness:
  "(map_of (calcImportAliases blogApp) ''database/sql'' = Some ''_''
    \<and> map_of (calcImportAliases blogApp) ''net/http/pprof'' = Some ''_''
    \<and> ''database/sql'' \<noteq> ''net/http/pprof'')
   \<and> (''database/sql'' \<in> set (InitImportPaths blogApp) - dom (map_of (usageAliases blogApp))
      \<or> ''net/http/pprof'' \<in> set (InitImportPaths blogApp) - dom (map_of (usageAliases blogApp)))
   \<and> ctrl ''blog/app/controllers'' ''controllers'' [arg ''blog/app/models'' ''models'', arg [] []]
       \<in> set (ControllerSpecs blogApp @ TestSuites blogApp)
   \<and> ''blog/app/controllers'' \<in> dom (map_of (calcImportAliases blogApp))
   \<and> ''blog/app/models'' \<in> dom (map_of (calcImportAliases blogApp))"
proof -
  note T = calcImportAliases_table [of blogApp]
  let ?c = "ctrl ''blog/app/controllers'' ''controllers'' [arg ''blog/app/models'' ''models'', arg [] []]"
  have h: "map_of (calcImportAliases blogApp) ''database/sql'' = Some ''_''
    \<and> map_of (calcImportAliases blogApp) ''net/http/pprof'' = Some ''_''
    \<and> ''database/sql'' \<noteq> ''net/http/pprof''"
    by (simp add: blogApp_aliases)
  have c: "?c \<in> set (ControllerSpecs blogApp @ TestSuites blogApp)"
    by (simp add: blogApp_def sourceOf_def)
  have m: "\<lparr>MethodName = ''Index'', Args = [arg ''blog/app/models'' ''models'', arg [] []],
      RenderCalls = []\<rparr> \<in> set (MethodSpecs ?c)"
    by (simp add: ctrl_def)
  have a: "arg ''blog/app/models'' ''models'' \<in> set (Args \<lparr>MethodName = ''Index'',
      Args = [arg ''blog/app/models'' ''models'', arg [] []], RenderCalls = []\<rparr>)"
    by simp
  have n: "ArgImportPath (arg ''blog/app/models'' ''models'') \<noteq> []"
    by (simp add: arg_def)
  from T [THEN conjunct1, rule_format, OF h]
  have 1: "''database/sql'' \<in> set (InitImportPaths blogApp) - dom (map_of (usageAliases blogApp))
      \<or> ''net/http/pprof'' \<in> set (InitImportPaths blogApp) - dom (map_of (usageAliases blogApp))"
    by (rule conjunct2)
  from T [THEN conjunct2, rule_format, OF c, THEN conjunct1]
  have 2: "''blog/app/controllers'' \<in> dom (map_of (calcImportAliases blogApp))"
    by (simp add: ctrl_def)
  from T [THEN conjunct2, rule_format, OF c, THEN conjunct2, rule_format, OF m a n]
  have 3: "''blog/app/models'' \<in> dom (map_of (calcImportAliases blogApp))"
    by (simp add: arg_def)
  from h 1 c 2 3 show ?thesis by blast
qed

lemma makePackageAlias_shape:
  "(\<not> containsValue al n \<longrightarrow> makePackageAlias al n = n)
   \<and> (containsValue al n \<longrightarrow>
        (\<exists>i. makePackageAlias al n = n @ itoa i
           \<and> (\<forall>j<i. containsValue al (n @ itoa j))))"
proof (intro conjI impI)
  assume "\<not> containsValue al n"
  then show "makePackageAlias al n = n"
    by (simp add: makePackageAlias_def makePackageAlias_loop.simps)
next
  assume "containsValue al n"
  from loop_shape [OF this, of 0 n] show
    "\<exists>i. makePackageAlias al n = n @ itoa i \<and> (\<forall>j<i. containsValue al (n @ itoa j))"
    by (auto simp: makePackageAlias_def)
qed

text \<open>The counter of \<open>makePackageAlias\<close> stays within the number of entries of the
  map.\<close>

lemma makePackageAlias_counter_bound:
  assumes "containsValue al n"
  shows "\<exists>i\<le>length al. makePackageAlias al n = n @ itoa i"
proof -
  from makePackageAlias_shape [of al n] assms obtain i where i:
    "makePackageAlias al n = n @ itoa i" "\<forall>j<i. containsValue al (n @ itoa j)"
    by blast
  have "inj_on (\<lambda>j. n @ itoa j) {..<i}"
    by (rule inj_onI) (simp add: itoa_inj)
  then have "card ((\<lambda>j. n @ itoa j) ` {..<i}) = i"
    by (simp add: card_image)
  moreover have "(\<lambda>j. n @ itoa j) ` {..<i} \<subseteq> snd ` set al"
    using i(2) by (auto simp: containsValue_iff)
  then have "card ((\<lambda>j. n @ itoa j) ` {..<i}) \<le> card (snd ` set al)"
    by (intro card_mono) simp_all
  moreover have "card (snd ` set al) \<le> length al"
    by (metis card_image_le card_length le_trans List.finite_set)
  ultimately have "i \<le> length al" by simp
  with i(1) show ?thesis by blast
qed

text \<open>
  Claim C5, as stated, fails: when two packages named \<open>a\<close> have been given the aliases
  \<open>a\<close> and \<open>a0\<close>, the first of two packages named \<open>a0\<close> does not get the bare name
  \<open>a0\<close> but \<open>a00\<close>.
\<close>

theorem colliding_packages_counterexample:
  "PackageName (ctrl ''c/a0'' ''a0'' []) = PackageName (ctrl ''d/a0'' ''a0'' [])
   \<and> ImportPath (ctrl ''c/a0'' ''a0'' []) \<noteq> ImportPath (ctrl ''d/a0'' ''a0'' [])
   \<and> calcImportAliases (sourceOf
         [ctrl ''a/a'' ''a'' [], ctrl ''b/a'' ''a'' [], ctrl ''c/a0'' ''a0'' [], ctrl ''d/a0'' ''a0'' []] [])
       = [(''a/a'', ''a''), (''b/a'', ''a0''), (''c/a0'', ''a00''), (''d/a0'', ''a01'')]"
  by (simp add: alias_eval)

text \<open>
  Claim C5, amended.  Two \<open>TypeInfo\<close>s with different import paths (whatever their
  package names) get two different aliases.  An import path that has no alias yet
  gets one that no other import path holds: the bare package name when no import path
  holds it, otherwise the package name followed by the first number of 0, 1, 2, \<dots>
  for which the suffixed name is not held.
\<close>

theorem colliding_packages_aliases:
  "(\<forall>t1 \<in> set (ControllerSpecs src @ TestSuites src).
    \<forall>t2 \<in> set (ControllerSpecs src @ TestSuites src).
      ImportPath t1 \<noteq> ImportPath t2 \<longrightarrow>
      (\<exists>a1 a2. map_of (calcImportAliases src) (ImportPath t1) = Some a1
         \<and> map_of (calcImportAliases src) (ImportPath t2) = Some a2 \<and> a1 \<noteq> a2))
   \<and> (\<forall>al p n. map_of al p = None \<longrightarrow>
        (\<exists>a. map_of (addAlias al p n) p = Some a
           \<and> \<not> containsValue al a
           \<and> (\<not> containsValue al n \<longrightarrow> a = n)
           \<and> (containsValue al n \<longrightarrow>
                (\<exists>i. a = n @ itoa i \<and> (\<forall>j<i. containsValue al (n @ itoa j))))))"
proof (intro conjI ballI allI impI)
  fix t1 t2
  assume t: "t1 \<in> set (ControllerSpecs src @ TestSuites src)"
    "t2 \<in> set (ControllerSpecs src @ TestSuites src)"
    and ne: "ImportPath t1 \<noteq> ImportPath t2"
  let ?U = "usageAliases src"
  from t have "ImportPath t1 \<in> fst ` set ?U" "ImportPath t2 \<in> fst ` set ?U"
    unfolding usageAliases_keys specPaths_def by blast+
  then obtain a1 a2 where a: "map_of ?U (ImportPath t1) = Some a1" "map_of ?U (ImportPath t2) = Some a2"
    by (auto simp: dom_map_of_conv_image_fst [symmetric])
  have "a1 \<noteq> a2"
  proof
    assume "a1 = a2"
    with a usageAliases_wellKeyed [of src] have "ImportPath t1 = ImportPath t2"
      by (auto intro: wellKeyed_inj)
    with ne show False by simp
  qed
  with a show "\<exists>a1 a2. map_of (calcImportAliases src) (ImportPath t1) = Some a1
         \<and> map_of (calcImportAliases src) (ImportPath t2) = Some a2 \<and> a1 \<noteq> a2"
    by (simp add: calc_lookup)
next
  fix al :: aliasMap and p n
  assume "map_of al p = None"
  then have "map_of (addAlias al p n) p = Some (makePackageAlias al n)"
    by (simp add: addAlias_def update_conv')
  moreover have "\<not> containsValue al (makePackageAlias al n)"
    using makePackageAlias_fresh [of al n] by (simp add: containsValue_iff)
  ultimately show "\<exists>a. map_of (addAlias al p n) p = Some a
           \<and> \<not> containsValue al a
           \<and> (\<not> containsValue al n \<longrightarrow> a = n)
           \<and> (containsValue al n \<longrightarrow>
                (\<exists>i. a = n @ itoa i \<and> (\<forall>j<i. containsValue al (n @ itoa j))))"
    using makePackageAlias_shape [of al n] by simp
qed

theorem colliding_packages_aliases_witness:
  "ctrl ''blog/app/controllers'' ''controllers'' [arg ''blog/app/models'' ''models'', arg [] []]
       \<in> set (ControllerSpecs blogApp @ TestSuites blogApp)
   \<and> ctrl ''blog/admin/controllers'' ''controllers'' []
       \<in> set (ControllerSpecs blogApp @ TestSuites blogApp)
   \<and> ''blog/app/controllers'' \<noteq> ''blog/admin/controllers''
   \<and> (\<exists>a1 a2. map_of (calcImportAliases blogApp) ''blog/app/controllers'' = Some a1
         \<and> map_of (calcImportAliases blogApp) ''blog/admin/controllers'' = Some a2 \<and> a1 \<noteq> a2)
   \<and> map_of (calcImportAliases blogApp) ''blog/app/controllers'' = Some ''controllers''
   \<and> map_of (calcImportAliases blogApp) ''blog/admin/controllers'' = Some ''controllers0''
   \<and> map_of [(''blog/app/controllers'', ''controllers'')] ''blog/admin/controllers'' = None
   \<and> containsValue [(''blog/app/controllers'', ''controllers'')] ''controllers''
   \<and> (\<exists>a. map_of (addAlias [(''blog/app/controllers'', ''controllers'')]
           ''blog/admin/controllers'' ''controllers'') ''blog/admin/controllers'' = Some a
         \<and> (\<exists>i. a = ''controllers'' @ itoa i
               \<and> (\<forall>j<i. containsValue [(''blog/app/controllers'', ''controllers'')]
                      (''controllers'' @ itoa j))))
   \<and> map_of (addAlias [(''blog/app/controllers'', ''controllers'')]
           ''blog/admin/controllers'' ''controllers'') ''blog/admin/controllers''
       = Some ''controllers0''"
proof -
  note T = colliding_packages_aliases [of blogApp]
  let ?c1 = "ctrl ''blog/app/controllers'' ''controllers'' [arg ''blog/app/models'' ''models'', arg [] []]"
  let ?c2 = "ctrl ''blog/admin/controllers'' ''controllers'' []"
  let ?al = "[(''blog/app/controllers'', ''controllers'')]"
  have c1: "?c1 \<in> set (ControllerSpecs blogApp @ TestSuites blogApp)"
    and c2: "?c2 \<in> set (ControllerSpecs blogApp @ TestSuites blogApp)"
    by (simp_all add: blogApp_def sourceOf_def)
  have ne: "ImportPath ?c1 \<noteq> ImportPath ?c2"
    by (simp add: ctrl_def)
  from T [THEN conjunct1, rule_format, OF c1 c2 ne]
  have 1: "\<exists>a1 a2. map_of (calcImportAliases blogApp) ''blog/app/controllers'' = Some a1
         \<and> map_of (calcImportAliases blogApp) ''blog/admin/controllers'' = Some a2 \<and> a1 \<noteq> a2"
    by (simp add: ctrl_def)
  have none: "map_of ?al ''blog/admin/controllers'' = None" by simp
  have cv: "containsValue ?al ''controllers''" by simp
  from T [THEN conjunct2, rule_format, OF none, of "''controllers''"] cv
  have 2: "\<exists>a. map_of (addAlias ?al ''blog/admin/controllers'' ''controllers'')
           ''blog/admin/controllers'' = Some a
         \<and> (\<exists>i. a = ''controllers'' @ itoa i
               \<and> (\<forall>j<i. containsValue ?al (''controllers'' @ itoa j)))"
    by blast
  have 3: "map_of (addAlias ?al ''blog/admin/controllers'' ''controllers'') ''blog/admin/controllers''
       = Some ''controllers0''"
    by (simp add: alias_eval)
  have 4: "map_of (calcImportAliases blogApp) ''blog/app/controllers'' = Some ''controllers''"
    "map_of (calcImportAliases blogApp) ''blog/admin/controllers'' = Some ''controllers0''"
    by (simp_all add: blogApp_aliases)
  have 5: "''blog/app/controllers'' \<noteq> ''blog/admin/controllers''" by simp
  from c1 c2 5 1 4 none cv 2 3 show ?thesis by blast
qed

section \<open>What a match of the diagnostic pattern looks like\<close>

lemma advance_simps [simp]:
  "rest (advance k st) = drop k (rest st)"
  "caps (advance k st) = caps st"
  by (simp_all add: advance_def)

lemma capture_simps [simp]:
  "rest (capture g st st') = rest st'"
  "prev (capture g st st') = prev st'"
  by (simp_all add: capture_def)

lemma take_takeWhile:
  "k \<le> length (takeWhile P xs) \<Longrightarrow> x \<in> set (take k xs) \<Longrightarrow> P x"
proof -
  assume k: "k \<le> length (takeWhile P xs)" and x: "x \<in> set (take k xs)"
  have "take k xs = take k (takeWhile P xs @ dropWhile P xs)" by simp
  also have "\<dots> = take k (takeWhile P xs)" using k by (simp del: takeWhile_dropWhile_id)
  finally have "x \<in> set (takeWhile P xs)" using x by (auto dest: in_set_takeD)
  then show "P x" by (rule set_takeWhileD [THEN conjunct2])
qed

lemma ms_Plus_elem:
  assumes "st' \<in> set (ms (Plus c) st)"
  shows "\<exists>w. w \<noteq> [] \<and> (\<forall>x\<in>set w. inClass c x) \<and> rest st = w @ rest st' \<and> caps st' = caps st"
proof -
  let ?n = "length (takeWhile (inClass c) (rest st))"
  from assms obtain k where k: "1 \<le> k" "k \<le> ?n" "st' = advance k st"
    by (auto simp del: upt_Suc simp: less_Suc_eq_le)
  have le: "?n \<le> length (rest st)" by (rule length_takeWhile_le)
  have "\<forall>x\<in>set (take k (rest st)). inClass c x"
    using take_takeWhile [OF k(2)] by blast
  moreover have "take k (rest st) \<noteq> []" using k le by auto
  moreover have "rest st = take k (rest st) @ rest st'" using k by simp
  moreover have "caps st' = caps st" using k by simp
  ultimately show ?thesis by blast
qed

lemma ms_Star_elem:
  assumes "st' \<in> set (ms (Star c) st)"
  shows "\<exists>w. (\<forall>x\<in>set w. inClass c x) \<and> rest st = w @ rest st' \<and> caps st' = caps st"
proof -
  let ?n = "length (takeWhile (inClass c) (rest st))"
  from assms obtain k where k: "k \<le> ?n" "st' = advance k st"
    by (auto simp del: upt_Suc simp: less_Suc_eq_le)
  have "\<forall>x\<in>set (take k (rest st)). inClass c x"
    using take_takeWhile [OF k(1)] by blast
  moreover have "rest st = take k (rest st) @ rest st'" using k by simp
  moreover have "caps st' = caps st" using k by simp
  ultimately show ?thesis by blast
qed

lemma ms_Lit_elem:
  assumes "st' \<in> set (ms (Lit w) st)"
  shows "rest st = w @ rest st' \<and> caps st' = caps st"
proof -
  from assms have t: "take (length w) (rest st) = w" and s: "st' = advance (length w) st"
    by (auto split: if_splits)
  have "rest st = take (length w) (rest st) @ drop (length w) (rest st)" by simp
  with t s show ?thesis by simp
qed

lemma ms_Group_elem:
  assumes "st' \<in> set (ms (Group g r) st)"
  shows "\<exists>s. s \<in> set (ms r st) \<and> st' = capture g st s"
  using assms by auto

lemma ms_Cat_elem:
  assumes "st' \<in> set (ms (Cat r1 r2) st)"
  shows "\<exists>mid. mid \<in> set (ms r1 st) \<and> st' \<in> set (ms r2 mid)"
  using assms by auto

lemma consumed_eq: "xs = w @ ys \<Longrightarrow> take (length xs - length ys) xs = w"
  by simp

lemma capture_caps:
  "rest st = w @ rest s \<Longrightarrow> caps (capture g st s) = (caps s)(g \<mapsto> w)"
  by (simp add: capture_def)


lemma findFrom_position:
  "findFrom r pv s = Some m \<Longrightarrow>
   \<exists>pre s'. s = pre @ s' \<and> matchAt r (if pre = [] then pv else Some (last pre)) s' = Some m"
proof (induction r pv s rule: findFrom.induct)
  case (1 r pv)
  then show ?case by (intro exI [of _ "[]"]) simp
next
  case (2 r pv c cs)
  show ?case
  proof (cases "matchAt r pv (c # cs)")
    case None
    with "2.prems" have "findFrom r (Some c) cs = Some m" by simp
    from "2.IH" [OF None this] obtain pre s' where p: "cs = pre @ s'"
      "matchAt r (if pre = [] then Some c else Some (last pre)) s' = Some m"
      by blast
    have "c # cs = (c # pre) @ s'" using p(1) by simp
    moreover have "matchAt r (if c # pre = [] then pv else Some (last (c # pre))) s' = Some m"
      using p(2) by (cases pre) simp_all
    ultimately show ?thesis by blast
  next
    case (Some m')
    with "2.prems" have "matchAt r pv (c # cs) = Some m" by simp
    then show ?thesis by (intro exI [of _ "[]"] exI [of _ "c # cs"]) simp
  qed
qed

lemma errorPattern_numSubexp: "numSubexp errorPattern = 4"
  by (simp add: errorPattern_def)

lemma ms_Group_Plus_elem:
  assumes "st' \<in> set (ms (Group g (Plus c)) st)"
  shows "\<exists>w. w \<noteq> [] \<and> (\<forall>x\<in>set w. inClass c x) \<and> rest st = w @ rest st'
           \<and> caps st' = (caps st)(g \<mapsto> w)"
proof -
  from ms_Group_elem [OF assms] obtain b where b: "b \<in> set (ms (Plus c) st)" "st' = capture g st b"
    by blast
  from ms_Plus_elem [OF b(1)] obtain w where w: "w \<noteq> []" "\<forall>x\<in>set w. inClass c x"
    "rest st = w @ rest b" "caps b = caps st"
    by blast
  from capture_caps [OF w(3), of g] b(2) w(4) have "caps st' = (caps st)(g \<mapsto> w)" by simp
  moreover from b(2) w(3) have "rest st = w @ rest st'" by simp
  ultimately show ?thesis using w(1,2) by blast
qed

lemma ms_Group_Star_elem:
  assumes "st' \<in> set (ms (Group g (Star c)) st)"
  shows "\<exists>w. (\<forall>x\<in>set w. inClass c x) \<and> rest st = w @ rest st'
           \<and> caps st' = (caps st)(g \<mapsto> w)"
proof -
  from ms_Group_elem [OF assms] obtain b where b: "b \<in> set (ms (Star c) st)" "st' = capture g st b"
    by blast
  from ms_Star_elem [OF b(1)] obtain w where w: "\<forall>x\<in>set w. inClass c x"
    "rest st = w @ rest b" "caps b = caps st"
    by blast
  from capture_caps [OF w(2), of g] b(2) w(3) have "caps st' = (caps st)(g \<mapsto> w)" by simp
  moreover from b(2) w(2) have "rest st = w @ rest st'" by simp
  ultimately show ?thesis using w(1) by blast
qed

lemma ms_column_elem:
  assumes "st' \<in> set (ms (Opt (Group g (seq [Plus Digit, Lit '':'']))) st)"
  shows "\<exists>col. (col = [] \<and> caps st' = caps st \<or> (\<exists>d. col = d @ '':'' \<and> isDigits d)
              \<and> caps st' = (caps st)(g \<mapsto> col))
           \<and> rest st = col @ rest st'"
proof -
  from assms have "st' = st \<or> st' \<in> set (ms (Group g (Cat (Plus Digit) (Lit '':''))) st)"
    by (auto simp del: ms.simps(1,2,3,5,6))
  then show ?thesis
  proof
    assume "st' = st"
    then show ?thesis by simp
  next
    assume "st' \<in> set (ms (Group g (Cat (Plus Digit) (Lit '':''))) st)"
    from ms_Group_elem [OF this] obtain c where c: "c \<in> set (ms (Cat (Plus Digit) (Lit '':'')) st)"
      "st' = capture g st c"
      by blast
    from ms_Cat_elem [OF c(1)] obtain b where b: "b \<in> set (ms (Plus Digit) st)"
      "c \<in> set (ms (Lit '':'') b)"
      by blast
    from ms_Plus_elem [OF b(1)] obtain d where d: "d \<noteq> []" "\<forall>x\<in>set d. inClass Digit x"
      "rest st = d @ rest b" "caps b = caps st"
      by blast
    from ms_Lit_elem [OF b(2)] have l: "rest b = '':'' @ rest c" "caps c = caps b"
      by simp_all
    from d(3) l(1) have r: "rest st = (d @ '':'') @ rest c" by simp
    from capture_caps [OF r, of g] c(2) l(2) d(4)
    have "caps st' = (caps st)(g \<mapsto> d @ '':'')" by simp
    moreover from r c(2) have "rest st = (d @ '':'') @ rest st'" by simp
    moreover from d(1,2) have "isDigits d" by (simp add: isDigits_def list_all_iff)
    ultimately show ?thesis by blast
  qed
qed

lemma errorPattern_shape:
  assumes "matchAt errorPattern pv s = Some m"
  shows "\<exists>path ln col desc.
      m = [path @ '':'' @ ln @ '':'' @ col @ '' '' @ desc, path, ln, col, desc]
      \<and> path \<noteq> [] \<and> (\<forall>c\<in>set path. c \<noteq> CHR '':'' \<and> c \<noteq> CHR ''#'')
      \<and> isDigits ln
      \<and> (col = [] \<or> (\<exists>d. col = d @ '':'' \<and> isDigits d))
      \<and> CHR 0x0A \<notin> set desc
      \<and> (pv = None \<or> pv = Some (CHR 0x0A))
      \<and> (\<exists>post. s = (path @ '':'' @ ln @ '':'' @ col @ '' '' @ desc) @ post
            \<and> (post = [] \<or> hd post = CHR 0x0A))"
proof -
  define st0 where "st0 = \<lparr>prev = pv, rest = s, caps = Map.empty\<rparr>"
  from assms obtain st' where st': "st' \<in> set (ms errorPattern st0)"
    and m: "m = submatches errorPattern st0 st'"
    by (auto simp: matchAt_def st0_def Let_def split: list.splits)
  from st' obtain a1 a2 a3 a4 a5 a6 a7 a8 where
    a1: "a1 \<in> set (ms BeginLine st0)" and
    a2: "a2 \<in> set (ms (Group 1 (Plus (NoneOf '':#''))) a1)" and
    a3: "a3 \<in> set (ms (Lit '':'') a2)" and
    a4: "a4 \<in> set (ms (Group 2 (Plus Digit)) a3)" and
    a5: "a5 \<in> set (ms (Lit '':'') a4)" and
    a6: "a6 \<in> set (ms (Opt (Group 3 (seq [Plus Digit, Lit '':'']))) a5)" and
    a7: "a7 \<in> set (ms (Lit '' '') a6)" and
    a8: "a8 \<in> set (ms (Group 4 (Star AnyChar)) a7)" and
    e: "st' \<in> set (ms EndLine a8)"
    unfolding errorPattern_def by (auto simp del: ms.simps(1,2,3,4,6,7,8))
  from a1 have b1: "a1 = st0" and bol: "pv = None \<or> pv = Some (CHR 0x0A)"
    by (auto simp: st0_def split: if_splits)
  from ms_Group_Plus_elem [OF a2] obtain path where p: "path \<noteq> []"
    "\<forall>x\<in>set path. inClass (NoneOf '':#'') x" "rest a1 = path @ rest a2"
    "caps a2 = (caps a1)(1 \<mapsto> path)"
    by blast
  from ms_Lit_elem [OF a3] have l3: "rest a2 = '':'' @ rest a3" "caps a3 = caps a2"
    by simp_all
  from ms_Group_Plus_elem [OF a4] obtain ln where n: "ln \<noteq> []"
    "\<forall>x\<in>set ln. inClass Digit x" "rest a3 = ln @ rest a4"
    "caps a4 = (caps a3)(2 \<mapsto> ln)"
    by blast
  from ms_Lit_elem [OF a5] have l5: "rest a4 = '':'' @ rest a5" "caps a5 = caps a4"
    by simp_all
  from ms_column_elem [OF a6] obtain col where c:
    "col = [] \<and> caps a6 = caps a5 \<or> (\<exists>d. col = d @ '':'' \<and> isDigits d)
        \<and> caps a6 = (caps a5)(3 \<mapsto> col)"
    "rest a5 = col @ rest a6"
    by blast
  from ms_Lit_elem [OF a7] have l7: "rest a6 = '' '' @ rest a7" "caps a7 = caps a6"
    by simp_all
  from ms_Group_Star_elem [OF a8] obtain desc where d:
    "\<forall>x\<in>set desc. inClass AnyChar x" "rest a7 = desc @ rest a8"
    "caps a8 = (caps a7)(4 \<mapsto> desc)"
    by blast
  from e have b8: "st' = a8" and eol: "rest st' = [] \<or> hd (rest st') = CHR 0x0A"
    by (auto split: list.splits if_splits)
  have whole: "rest st0 = (path @ '':'' @ ln @ '':'' @ col @ '' '' @ desc) @ rest st'"
    using b1 p(3) l3(1) n(3) l5(1) c(2) l7(1) d(2) b8 by simp
  have c0: "caps st0 = Map.empty" by (simp add: st0_def)
  have g1: "caps st' 1 = Some path" and g2: "caps st' 2 = Some ln" and g4: "caps st' 4 = Some desc"
    and g3: "(case caps st' 3 of None \<Rightarrow> [] | Some x \<Rightarrow> x) = col"
    using b1 b8 c0 p(4) l3(2) n(4) l5(2) c(1) l7(2) d(3) by auto
  have up: "[1..<Suc 4] = [1, 2, 3, 4]" by (simp add: upt_rec)
  have tk: "take (length (rest st0) - length (rest st')) (rest st0)
      = path @ '':'' @ ln @ '':'' @ col @ '' '' @ desc"
    by (rule consumed_eq [OF whole])
  have "m = [path @ '':'' @ ln @ '':'' @ col @ '' '' @ desc, path, ln, col, desc]"
    unfolding m submatches_def errorPattern_numSubexp up tk using g1 g2 g3 g4 by simp
  moreover have "\<forall>c\<in>set path. c \<noteq> CHR '':'' \<and> c \<noteq> CHR ''#''" using p(2) by simp
  moreover have "isDigits ln" using n(1,2) by (simp add: isDigits_def list_all_iff)
  moreover have "col = [] \<or> (\<exists>d. col = d @ '':'' \<and> isDigits d)" using c(1) by blast
  moreover have "CHR 0x0A \<notin> set desc" using d(1) by auto
  moreover have "\<exists>post. s = (path @ '':'' @ ln @ '':'' @ col @ '' '' @ desc) @ post
            \<and> (post = [] \<or> hd post = CHR 0x0A)"
    using whole eol by (intro exI [of _ "rest st'"]) (simp add: st0_def)
  ultimately show ?thesis using p(1) bol by blast
qed

section \<open>The diagnostic parser: claims\<close>

lemma FindSubmatch_position:
  assumes "FindSubmatch errorPattern output = Some m"
  shows "\<exists>path ln col desc pre post.
      m = [path @ '':'' @ ln @ '':'' @ col @ '' '' @ desc, path, ln, col, desc]
      \<and> path \<noteq> [] \<and> (\<forall>c\<in>set path. c \<noteq> CHR '':'' \<and> c \<noteq> CHR ''#'')
      \<and> isDigits ln
      \<and> (col = [] \<or> (\<exists>d. col = d @ '':'' \<and> isDigits d))
      \<and> CHR 0x0A \<notin> set desc
      \<and> output = pre @ (path @ '':'' @ ln @ '':'' @ col @ '' '' @ desc) @ post
      \<and> (pre = [] \<or> last pre = CHR 0x0A)
      \<and> (post = [] \<or> hd post = CHR 0x0A)"
proof -
  from assms have "findFrom errorPattern None output = Some m"
    by (simp add: FindSubmatch_def)
  from findFrom_position [OF this] obtain pre s' where p: "output = pre @ s'"
    "matchAt errorPattern (if pre = [] then None else Some (last pre)) s' = Some m"
    by blast
  from errorPattern_shape [OF p(2)] obtain path ln col desc post where q:
    "m = [path @ '':'' @ ln @ '':'' @ col @ '' '' @ desc, path, ln, col, desc]"
    "path \<noteq> []" "\<forall>c\<in>set path. c \<noteq> CHR '':'' \<and> c \<noteq> CHR ''#''"
    "isDigits ln" "col = [] \<or> (\<exists>d. col = d @ '':'' \<and> isDigits d)"
    "CHR 0x0A \<notin> set desc"
    "(if pre = [] then None else Some (last pre)) = None
       \<or> (if pre = [] then None else Some (last pre)) = Some (CHR 0x0A)"
    "s' = (path @ '':'' @ ln @ '':'' @ col @ '' '' @ desc) @ post"
    "post = [] \<or> hd post = CHR 0x0A"
    by blast
  from q(7) have "pre = [] \<or> last pre = CHR 0x0A" by (auto split: if_splits)
  moreover from p(1) q(8) have "output = pre @ (path @ '':'' @ ln @ '':'' @ col @ '' '' @ desc) @ post"
    by simp
  ultimately show ?thesis using q(1-6,9) by blast
qed

lemma newCompileError_Path:
  "Path (snd (newCompileError w output)) =
     (case FindSubmatch errorPattern output of None \<Rightarrow> [] | Some m \<Rightarrow> m ! 1)"
  by (simp add: newCompileError_def Let_def split: option.splits sum.splits)

lemma newCompileError_Description:
  "Description (snd (newCompileError w output)) =
     (case FindSubmatch errorPattern output of None \<Rightarrow> ''See console for build error.''
      | Some m \<Rightarrow> m ! 4)"
  by (simp add: newCompileError_def Let_def split: option.splits sum.splits)

lemma newCompileError_Line:
  "Line (snd (newCompileError w output)) =
     (case FindSubmatch errorPattern output of None \<Rightarrow> 0 | Some m \<Rightarrow> Atoi (m ! 2))"
  by (simp add: newCompileError_def Let_def split: option.splits sum.splits)

text \<open>
  Claim C10.  Whenever \<open>newCompileError\<close> returns a non-empty \<open>Path\<close>, that path contains
  neither \<open>:\<close> nor \<open>#\<close>, and it stands in the output at the start of a line, followed
  by a colon.  So a line that begins with \<open>#\<close> is never taken as the diagnostic, and a
  path with a colon in it is never the located path.
\<close>

theorem located_path_has_no_colon_or_hash:
  assumes "Path (snd (newCompileError w output)) \<noteq> []"
  shows "CHR '':'' \<notin> set (Path (snd (newCompileError w output)))
    \<and> CHR ''#'' \<notin> set (Path (snd (newCompileError w output)))
    \<and> (\<exists>pre post. output = pre @ Path (snd (newCompileError w output)) @ '':'' @ post
          \<and> (pre = [] \<or> last pre = CHR 0x0A))"
proof -
  from assms obtain m where m: "FindSubmatch errorPattern output = Some m"
    by (auto simp: newCompileError_Path split: option.splits)
  from FindSubmatch_position [OF m] obtain path ln col desc pre post where q:
    "m = [path @ '':'' @ ln @ '':'' @ col @ '' '' @ desc, path, ln, col, desc]"
    "\<forall>c\<in>set path. c \<noteq> CHR '':'' \<and> c \<noteq> CHR ''#''"
    "output = pre @ (path @ '':'' @ ln @ '':'' @ col @ '' '' @ desc) @ post"
    "pre = [] \<or> last pre = CHR 0x0A"
    by blast
  have P: "Path (snd (newCompileError w output)) = path"
    using m q(1) by (simp add: newCompileError_Path)
  have "output = pre @ path @ '':'' @ (ln @ '':'' @ col @ '' '' @ desc @ post)"
    using q(3) by simp
  with q(2,4) show ?thesis unfolding P by blast
qed

lemma headedOutput_match:
  "FindSubmatch errorPattern headedOutput
     = Some [undefinedFoo, ''controllers/app.go'', ''42'', ''10:'', ''undefined: Foo'']"
  by code_simp

lemma colonPath_no_match: "FindSubmatch errorPattern ''C:/blog/app.go:3: bad'' = None"
  by code_simp

lemma headerOnly_no_match: "FindSubmatch errorPattern ''# blog/app/controllers'' = None"
  by code_simp

theorem located_path_has_no_colon_or_hash_witness:
  "Path (snd (newCompileError idleWorld headedOutput)) \<noteq> []
   \<and> Path (snd (newCompileError idleWorld headedOutput)) = ''controllers/app.go''
   \<and> CHR '':'' \<notin> set (Path (snd (newCompileError idleWorld headedOutput)))
   \<and> CHR ''#'' \<notin> set (Path (snd (newCompileError idleWorld headedOutput)))
   \<and> Path (snd (newCompileError idleWorld ''# blog/app/controllers'')) = []
   \<and> Path (snd (newCompileError idleWorld ''C:/blog/app.go:3: bad'')) = []"
proof -
  have p: "Path (snd (newCompileError idleWorld headedOutput)) = ''controllers/app.go''"
    by (simp add: newCompileError_Path headedOutput_match)
  then have ne: "Path (snd (newCompileError idleWorld headedOutput)) \<noteq> []" by simp
  from located_path_has_no_colon_or_hash [OF ne]
  have "CHR '':'' \<notin> set (Path (snd (newCompileError idleWorld headedOutput)))
    \<and> CHR ''#'' \<notin> set (Path (snd (newCompileError idleWorld headedOutput)))"
    by blast
  moreover have "Path (snd (newCompileError idleWorld ''# blog/app/controllers'')) = []"
    by (simp add: newCompileError_Path headerOnly_no_match)
  moreover have "Path (snd (newCompileError idleWorld ''C:/blog/app.go:3: bad'')) = []"
    by (simp add: newCompileError_Path colonPath_no_match)
  ultimately show ?thesis using p ne by blast
qed

lemma split_at_first:
  assumes "\<forall>c\<in>set p. P c" "\<not> P x" "s = p @ x # t"
  shows "p = takeWhile P s" "x # t = dropWhile P s"
proof -
  from assms(1) have a: "takeWhile P p = p" "dropWhile P p = []"
    by (simp_all add: takeWhile_eq_all_conv)
  show "p = takeWhile P s"
    unfolding assms(3) using assms(2) a by (simp add: takeWhile_tail)
  show "x # t = dropWhile P s"
    unfolding assms(3) using assms(2) a by (simp add: dropWhile_append3)
qed

lemma isDigits_class: "isDigits s \<Longrightarrow> \<forall>c\<in>set s. inClass Digit c"
  by (simp add: isDigits_def list_all_iff)

lemma undefinedFoo_parts:
  assumes m: "m = [path @ '':'' @ ln @ '':'' @ col @ '' '' @ desc, path, ln, col, desc]"
    and whole: "m ! 0 = undefinedFoo"
    and path: "\<forall>c\<in>set path. c \<noteq> CHR '':'' \<and> c \<noteq> CHR ''#''"
    and ln: "isDigits ln"
    and col: "col = [] \<or> (\<exists>d. col = d @ '':'' \<and> isDigits d)"
  shows "path = ''controllers/app.go'' \<and> ln = ''42'' \<and> desc = ''undefined: Foo''"
proof -
  from m whole have w: "undefinedFoo = path @ CHR '':'' # (ln @ '':'' @ col @ '' '' @ desc)"
    by simp
  from path have p': "\<forall>c\<in>set path. c \<noteq> CHR '':''" by blast
  from split_at_first [OF p' _ w]
  have 1: "path = ''controllers/app.go''"
    and "CHR '':'' # (ln @ '':'' @ col @ '' '' @ desc) = '':42:10: undefined: Foo''"
    by (simp_all add: undefinedFoo_def)
  then have w2: "''42:10: undefined: Foo'' = ln @ CHR '':'' # (col @ '' '' @ desc)"
    by simp
  from split_at_first [OF isDigits_class [OF ln] _ w2]
  have 2: "ln = ''42''" and "CHR '':'' # (col @ '' '' @ desc) = '':10: undefined: Foo''"
    by simp_all
  then have w3: "''10: undefined: Foo'' = col @ '' '' @ desc" by simp
  from col have 3: "desc = ''undefined: Foo''"
  proof
    assume "col = []"
    with w3 show ?thesis by simp
  next
    assume "\<exists>d. col = d @ '':'' \<and> isDigits d"
    then obtain d where d: "col = d @ '':''" "isDigits d" by blast
    from w3 d(1) have w4: "''10: undefined: Foo'' = d @ CHR '':'' # ('' '' @ desc)" by simp
    from split_at_first(2) [OF isDigits_class [OF d(2)] _ w4]
    show ?thesis by simp
  qed
  from 1 2 3 show ?thesis by blast
qed

lemma Atoi_42: "Atoi ''42'' = 42"
  by (simp add: Atoi_def isDigits_def decimal_def digitVal_def IntSize_def)

lemma no_colon_no_match:
  assumes "CHR '':'' \<notin> set output"
  shows "FindSubmatch errorPattern output = None"
proof (cases "FindSubmatch errorPattern output")
  case None
  then show ?thesis .
next
  case (Some m)
  from FindSubmatch_position [OF Some] obtain path ln col desc pre post where
    "output = pre @ (path @ '':'' @ ln @ '':'' @ col @ '' '' @ desc) @ post"
    by blast
  then have "CHR '':'' \<in> set output" by simp
  with assms show ?thesis by simp
qed

text \<open>
  Claim C6, as stated, fails: for output without a diagnostic the description is the
  text \<^verbatim>\<open>See console for build error.\<close>; it is not \<^verbatim>\<open>see console output\<close> and it does
  not carry the output.
\<close>

theorem unparsable_output_counterexample:
  "FindSubmatch errorPattern ''exit status 2'' = None
   \<and> Path (snd (newCompileError idleWorld ''exit status 2'')) = []
   \<and> Description (snd (newCompileError idleWorld ''exit status 2''))
       = ''See console for build error.''
   \<and> Description (snd (newCompileError idleWorld ''exit status 2'')) \<noteq> ''see console output''"
proof -
  have "FindSubmatch errorPattern ''exit status 2'' = None" by code_simp
  then show ?thesis
    by (simp add: newCompileError_Path newCompileError_Description)
qed

text \<open>
  Claim C6, amended.  When the diagnostic pattern finds no match in the output (which
  is so for every output without a colon), \<open>newCompileError\<close> writes the raw output to
  the error log and returns the generic error: \<open>Path\<close> empty, \<open>Line\<close> 0, no source lines,
  no meta error, and the description \<^verbatim>\<open>See console for build error.\<close>
\<close>

theorem unparsable_output_generic_error:
  "(FindSubmatch errorPattern output = None \<longrightarrow>
      newCompileError w output =
        ([Log ERROR (Sprintln [''Failed to parse build errors:'' @ [CHR 0x0A], output])],
         \<lparr>SourceType = ''Go code'', Title = ''Go Compilation Error'', Path = [],
          Description = ''See console for build error.'', Line = 0, SourceLines = [],
          MetaError = []\<rparr>))
   \<and> (CHR '':'' \<notin> set output \<longrightarrow> FindSubmatch errorPattern output = None)"
  by (simp add: newCompileError_def no_colon_no_match)

theorem unparsable_output_generic_error_witness:
  "CHR '':'' \<notin> set ''exit status 2''
   \<and> FindSubmatch errorPattern ''exit status 2'' = None
   \<and> newCompileError idleWorld ''exit status 2'' =
        ([Log ERROR (''Failed to parse build errors:'' @ [CHR 0x0A] @ '' exit status 2'' @ [CHR 0x0A])],
         \<lparr>SourceType = ''Go code'', Title = ''Go Compilation Error'', Path = [],
          Description = ''See console for build error.'', Line = 0, SourceLines = [],
          MetaError = []\<rparr>)"
proof -
  note T = unparsable_output_generic_error [of "''exit status 2''" idleWorld]
  have c: "CHR '':'' \<notin> set ''exit status 2''" by simp
  from T [THEN conjunct2, rule_format, OF c]
  have n: "FindSubmatch errorPattern ''exit status 2'' = None" .
  from T [THEN conjunct1, rule_format, OF n]
  have "newCompileError idleWorld ''exit status 2'' =
        ([Log ERROR (''Failed to parse build errors:'' @ [CHR 0x0A] @ '' exit status 2'' @ [CHR 0x0A])],
         \<lparr>SourceType = ''Go code'', Title = ''Go Compilation Error'', Path = [],
          Description = ''See console for build error.'', Line = 0, SourceLines = [],
          MetaError = []\<rparr>)"
    by (simp add: Sprintln_def)
  with c n show ?thesis by blast
qed

lemma Atoi_digits: "isDigits ln \<Longrightarrow> Atoi ln = min (int (decimal ln)) (2 ^ 63 - 1)"
  by (simp add: Atoi_def IntSize_def)

text \<open>
  Claim C7.  When the pattern matches and the file it names cannot be read,
  \<open>newCompileError\<close> still returns the error with \<open>Path\<close>, \<open>Line\<close> and \<open>Description\<close> taken
  from the diagnostic; \<open>SourceLines\<close> is empty and \<open>MetaError\<close> is the absolute file name
  followed by the text of the read error, which is also logged.
\<close>

theorem unreadable_source_keeps_diagnostic:
  assumes "FindSubmatch errorPattern output = Some [whole, path, ln, col, desc]"
    and "ReadLines w (Abs w path) = Inl err"
  shows "newCompileError w output =
      ([Log ERROR (Sprintln [Abs w path @ '': '' @ err])],
       \<lparr>SourceType = ''Go code'', Title = ''Go Compilation Error'', Path = path,
        Description = desc, Line = min (int (decimal ln)) (2 ^ 63 - 1), SourceLines = [],
        MetaError = Abs w path @ '': '' @ err\<rparr>)
    \<and> whole = path @ '':'' @ ln @ '':'' @ col @ '' '' @ desc
    \<and> path \<noteq> [] \<and> isDigits ln"
proof -
  from FindSubmatch_position [OF assms(1)] have s:
    "whole = path @ '':'' @ ln @ '':'' @ col @ '' '' @ desc" "path \<noteq> []" "isDigits ln"
    by auto
  from assms have "newCompileError w output =
      ([Log ERROR (Sprintln [Abs w path @ '': '' @ err])],
       \<lparr>SourceType = ''Go code'', Title = ''Go Compilation Error'', Path = path,
        Description = desc, Line = Atoi ln, SourceLines = [],
        MetaError = Abs w path @ '': '' @ err\<rparr>)"
    by (simp add: newCompileError_def Let_def)
  with s show ?thesis by (simp add: Atoi_digits)
qed

theorem unreadable_source_keeps_diagnostic_witness:
  "FindSubmatch errorPattern headedOutput
     = Some [undefinedFoo, ''controllers/app.go'', ''42'', ''10:'', ''undefined: Foo'']
   \<and> ReadLines idleWorld (Abs idleWorld ''controllers/app.go'')
     = Inl ''open /go/src/blog/controllers/app.go: no such file or directory''
   \<and> snd (newCompileError idleWorld headedOutput) =
       \<lparr>SourceType = ''Go code'', Title = ''Go Compilation Error'', Path = ''controllers/app.go'',
        Description = ''undefined: Foo'', Line = 42, SourceLines = [],
        MetaError = ''/go/src/blog/controllers/app.go: open /go/src/blog/controllers/app.go: no such file or directory''\<rparr>"
proof -
  have r: "ReadLines idleWorld (Abs idleWorld ''controllers/app.go'')
     = Inl ''open /go/src/blog/controllers/app.go: no such file or directory''"
    by (simp add: idleWorld_def sampleWorld_def)
  have d: "decimal ''42'' = 42"
    by (simp add: decimal_def digitVal_def)
  have a: "Abs idleWorld ''controllers/app.go'' = ''/go/src/blog/controllers/app.go''"
    by (simp add: idleWorld_def sampleWorld_def)
  from unreadable_source_keeps_diagnostic [OF headedOutput_match r, THEN conjunct1]
  have "snd (newCompileError idleWorld headedOutput) =
       \<lparr>SourceType = ''Go code'', Title = ''Go Compilation Error'', Path = ''controllers/app.go'',
        Description = ''undefined: Foo'', Line = 42, SourceLines = [],
        MetaError = ''/go/src/blog/controllers/app.go: open /go/src/blog/controllers/app.go: no such file or directory''\<rparr>"
    by (simp add: d a)
  with headedOutput_match r show ?thesis by blast
qed

lemma matchAt_not_at_line_start:
  "pv \<noteq> None \<Longrightarrow> pv \<noteq> Some (CHR 0x0A) \<Longrightarrow> matchAt errorPattern pv s = None"
  by (auto simp: matchAt_def errorPattern_def Let_def)

lemma matchAt_hash: "matchAt errorPattern pv (CHR ''#'' # s) = None"
  by (auto simp: matchAt_def errorPattern_def Let_def)

lemma findFrom_skip_line:
  "pv \<noteq> None \<Longrightarrow> pv \<noteq> Some (CHR 0x0A) \<Longrightarrow> CHR 0x0A \<notin> set h \<Longrightarrow>
   findFrom errorPattern pv (h @ CHR 0x0A # t) = findFrom errorPattern (Some (CHR 0x0A)) t"
proof (induction h arbitrary: pv)
  case Nil
  then show ?case by (simp add: matchAt_not_at_line_start)
next
  case (Cons c h)
  from Cons.prems have "findFrom errorPattern pv ((c # h) @ CHR 0x0A # t)
      = findFrom errorPattern (Some c) (h @ CHR 0x0A # t)"
    by (simp add: matchAt_not_at_line_start)
  also from Cons.prems have "\<dots> = findFrom errorPattern (Some (CHR 0x0A)) t"
    by (intro Cons.IH) auto
  finally show ?case .
qed

lemma findFrom_skip_header:
  assumes "CHR 0x0A \<notin> set h"
  shows "findFrom errorPattern pv (CHR ''#'' # h @ CHR 0x0A # t)
      = findFrom errorPattern (Some (CHR 0x0A)) t"
proof -
  have "findFrom errorPattern pv (CHR ''#'' # h @ CHR 0x0A # t)
      = findFrom errorPattern (Some (CHR ''#'')) (h @ CHR 0x0A # t)"
    by (simp add: matchAt_hash)
  also have "\<dots> = findFrom errorPattern (Some (CHR 0x0A)) t"
    using assms by (intro findFrom_skip_line) simp_all
  finally show ?thesis .
qed

lemma line_start_match:
  "pv = None \<or> pv = Some (CHR 0x0A) \<Longrightarrow> later = [] \<or> hd later = CHR 0x0A \<Longrightarrow>
   findFrom errorPattern pv (undefinedFoo @ later)
     = Some [undefinedFoo, ''controllers/app.go'', ''42'', ''10:'', ''undefined: Foo'']"
  by (cases later)
     (auto simp: errorPattern_def submatches_def matchAt_def advance_def capture_def
        upt_rec undefinedFoo_def)

lemma findFrom_skip_headers:
  "\<forall>h\<in>set hs. CHR 0x0A \<notin> set h \<Longrightarrow>
   findFrom errorPattern pv (headerLines hs @ t)
     = findFrom errorPattern (if hs = [] then pv else Some (CHR 0x0A)) t"
proof (induction hs arbitrary: pv)
  case Nil
  then show ?case by (simp add: headerLines_def)
next
  case (Cons h hs)
  have "findFrom errorPattern pv (headerLines (h # hs) @ t)
      = findFrom errorPattern pv (CHR ''#'' # h @ CHR 0x0A # (headerLines hs @ t))"
    by (simp add: headerLines_def)
  also have "\<dots> = findFrom errorPattern (Some (CHR 0x0A)) (headerLines hs @ t)"
    using Cons.prems by (intro findFrom_skip_header) simp
  also have "\<dots> = findFrom errorPattern (if hs = [] then Some (CHR 0x0A) else Some (CHR 0x0A)) t"
    using Cons.prems by (intro Cons.IH) simp
  finally show ?case by simp
qed

text \<open>
  The parser on the sample diagnostic.  When the first match of the diagnostic pattern in
  the output is exactly the line \<^verbatim>\<open>controllers/app.go:42:10: undefined: Foo\<close>, the error has
  \<open>Path\<close> \<^verbatim>\<open>controllers/app.go\<close>, \<open>Line\<close> 42 and \<open>Description\<close> \<^verbatim>\<open>undefined: Foo\<close>.  This is
  so in particular when the output is that line alone, or that line below any number of
  package header lines and above further lines.
\<close>

lemma newCompileError_undefined_Foo:
  "(\<forall>m. FindSubmatch errorPattern output = Some m
        \<and> m ! 0 = ''controllers/app.go:42:10: undefined: Foo''
      \<longrightarrow> Path (snd (newCompileError w output)) = ''controllers/app.go''
        \<and> Line (snd (newCompileError w output)) = 42
        \<and> Description (snd (newCompileError w output)) = ''undefined: Foo'')
   \<and> (\<forall>hs later. (\<forall>h\<in>set hs. CHR 0x0A \<notin> set h) \<and> (later = [] \<or> hd later = CHR 0x0A)
      \<longrightarrow> Path (snd (newCompileError w
             (headerLines hs @ ''controllers/app.go:42:10: undefined: Foo'' @ later)))
           = ''controllers/app.go''
        \<and> Line (snd (newCompileError w
             (headerLines hs @ ''controllers/app.go:42:10: undefined: Foo'' @ later))) = 42
        \<and> Description (snd (newCompileError w
             (headerLines hs @ ''controllers/app.go:42:10: undefined: Foo'' @ later)))
           = ''undefined: Foo'')"
proof (rule conjI; intro allI impI)
  fix m
  assume a: "FindSubmatch errorPattern output = Some m
        \<and> m ! 0 = ''controllers/app.go:42:10: undefined: Foo''"
  from FindSubmatch_position [OF a [THEN conjunct1]] obtain path ln col desc where q:
    "m = [path @ '':'' @ ln @ '':'' @ col @ '' '' @ desc, path, ln, col, desc]"
    "\<forall>c\<in>set path. c \<noteq> CHR '':'' \<and> c \<noteq> CHR ''#''"
    "isDigits ln" "col = [] \<or> (\<exists>d. col = d @ '':'' \<and> isDigits d)"
    by blast
  from a have "m ! 0 = undefinedFoo" by (simp add: undefinedFoo_def)
  from undefinedFoo_parts [OF q(1) this q(2,3,4)]
  have "path = ''controllers/app.go''" "ln = ''42''" "desc = ''undefined: Foo''"
    by blast+
  with q(1) a show "Path (snd (newCompileError w output)) = ''controllers/app.go''
        \<and> Line (snd (newCompileError w output)) = 42
        \<and> Description (snd (newCompileError w output)) = ''undefined: Foo''"
    by (simp add: newCompileError_Path newCompileError_Line newCompileError_Description Atoi_42)
next
  fix hs :: "string list" and later :: string
  assume a: "(\<forall>h\<in>set hs. CHR 0x0A \<notin> set h) \<and> (later = [] \<or> hd later = CHR 0x0A)"
  let ?out = "headerLines hs @ ''controllers/app.go:42:10: undefined: Foo'' @ later"
  have "FindSubmatch errorPattern ?out
      = findFrom errorPattern (if hs = [] then None else Some (CHR 0x0A)) (undefinedFoo @ later)"
    using a by (simp add: FindSubmatch_def findFrom_skip_headers undefinedFoo_def)
  also have "\<dots> = Some [undefinedFoo, ''controllers/app.go'', ''42'', ''10:'', ''undefined: Foo'']"
    using a by (intro line_start_match) simp_all
  finally show "Path (snd (newCompileError w ?out)) = ''controllers/app.go''
        \<and> Line (snd (newCompileError w ?out)) = 42
        \<and> Description (snd (newCompileError w ?out)) = ''undefined: Foo''"
    by (simp add: newCompileError_Path newCompileError_Line newCompileError_Description Atoi_42)
qed

lemma newCompileError_undefined_Foo_sample:
  "FindSubmatch errorPattern headedOutput
     = Some [undefinedFoo, ''controllers/app.go'', ''42'', ''10:'', ''undefined: Foo'']
   \<and> [undefinedFoo, ''controllers/app.go'', ''42'', ''10:'', ''undefined: Foo''] ! 0
     = ''controllers/app.go:42:10: undefined: Foo''
   \<and> Path (snd (newCompileError idleWorld headedOutput)) = ''controllers/app.go''
   \<and> Line (snd (newCompileError idleWorld headedOutput)) = 42
   \<and> Description (snd (newCompileError idleWorld headedOutput)) = ''undefined: Foo''
   \<and> CHR 0x0A \<notin> set '' blog/app/controllers''
   \<and> Path (snd (newCompileError idleWorld
         (headerLines ['' blog/app/controllers''] @ ''controllers/app.go:42:10: undefined: Foo'' @ [])))
       = ''controllers/app.go''"
proof -
  note T = newCompileError_undefined_Foo [of headedOutput idleWorld]
  have w: "[undefinedFoo, ''controllers/app.go'', ''42'', ''10:'', ''undefined: Foo''] ! 0
     = ''controllers/app.go:42:10: undefined: Foo''"
    by (simp add: undefinedFoo_def)
  have h: "(\<forall>h\<in>set ['' blog/app/controllers'']. CHR 0x0A \<notin> set h)
      \<and> ([] = [] \<or> hd [] = CHR 0x0A)"
    by simp
  from T [THEN conjunct1, rule_format, OF conjI [OF headedOutput_match w]]
  have 1: "Path (snd (newCompileError idleWorld headedOutput)) = ''controllers/app.go''
        \<and> Line (snd (newCompileError idleWorld headedOutput)) = 42
        \<and> Description (snd (newCompileError idleWorld headedOutput)) = ''undefined: Foo''" .
  from T [THEN conjunct2, rule_format, OF h]
  have 2: "Path (snd (newCompileError idleWorld
         (headerLines ['' blog/app/controllers''] @ ''controllers/app.go:42:10: undefined: Foo'' @ [])))
       = ''controllers/app.go''"
    by blast
  have n: "CHR 0x0A \<notin> set '' blog/app/controllers''" by simp
  from headedOutput_match w 1 2 n show ?thesis by blast
qed

text \<open>
  The first group of the pattern, \<^verbatim>\<open>[^:#]+\<close>, also accepts a line break.  A line
  without \<open>:\<close> and \<open>#\<close> that stands right above a diagnostic is therefore drawn into the
  match, and the located path then begins with that line.
\<close>

lemma path_group_spans_lines:
  "FindSubmatch errorPattern (''go build'' @ [CHR 0x0A] @ undefinedFoo)
     = Some [''go build'' @ [CHR 0x0A] @ undefinedFoo,
             ''go build'' @ [CHR 0x0A] @ ''controllers/app.go'', ''42'', ''10:'', ''undefined: Foo'']"
  by code_simp

lemma first_line_no_match: "FindSubmatch errorPattern ''go build'' = None"
  by code_simp

lemma second_line_match:
  "FindSubmatch errorPattern undefinedFoo
     = Some [undefinedFoo, ''controllers/app.go'', ''42'', ''10:'', ''undefined: Foo'']"
  by code_simp

text \<open>
  Claim C3 does not hold of the code as it is written.  The pattern is anchored to the
  lines of the output by \<^verbatim>\<open>(?m)^\<close> and \<^verbatim>\<open>$\<close>, and the text of its first group is used as
  the name of a source file, which \<open>newCompileError\<close> reads at once.  But the group also
  accepts a line break.  Take the output of two lines \<^verbatim>\<open>go build\<close> and
  \<^verbatim>\<open>controllers/app.go:42:10: undefined: Foo\<close>: the first line does not match the pattern,
  the second line does, so the second line is the first matching line of the output.
  The error has \<open>Line\<close> 42 and \<open>Description\<close> \<^verbatim>\<open>undefined: Foo\<close> as claimed, but its \<open>Path\<close>
  is the text of both lines up to the first colon, line break included, and not
  \<^verbatim>\<open>controllers/app.go\<close>.
\<close>

theorem newCompileError_path_spans_lines:
  "FindSubmatch errorPattern ''go build'' = None
   \<and> FindSubmatch errorPattern undefinedFoo
       = Some [undefinedFoo, ''controllers/app.go'', ''42'', ''10:'', ''undefined: Foo'']
   \<and> undefinedFoo = ''controllers/app.go:42:10: undefined: Foo''
   \<and> Path (snd (newCompileError w (''go build'' @ [CHR 0x0A] @ undefinedFoo)))
       = ''go build'' @ [CHR 0x0A] @ ''controllers/app.go''
   \<and> Path (snd (newCompileError w (''go build'' @ [CHR 0x0A] @ undefinedFoo)))
       \<noteq> ''controllers/app.go''
   \<and> Line (snd (newCompileError w (''go build'' @ [CHR 0x0A] @ undefinedFoo))) = 42
   \<and> Description (snd (newCompileError w (''go build'' @ [CHR 0x0A] @ undefinedFoo)))
       = ''undefined: Foo''"
proof -
  note m = path_group_spans_lines
  have p: "Path (snd (newCompileError w (''go build'' @ [CHR 0x0A] @ undefinedFoo)))
       = ''go build'' @ [CHR 0x0A] @ ''controllers/app.go''"
    unfolding newCompileError_Path m by simp
  have q: "Path (snd (newCompileError w (''go build'' @ [CHR 0x0A] @ undefinedFoo)))
       \<noteq> ''controllers/app.go''"
    unfolding p by simp
  have l: "Line (snd (newCompileError w (''go build'' @ [CHR 0x0A] @ undefinedFoo))) = 42"
    unfolding newCompileError_Line m by (simp add: Atoi_42)
  have d: "Description (snd (newCompileError w (''go build'' @ [CHR 0x0A] @ undefinedFoo)))
       = ''undefined: Foo''"
    unfolding newCompileError_Description m by simp
  from first_line_no_match second_line_match undefinedFoo_def p q l d show ?thesis
    by blast
qed

section \<open>The build orchestrator: claims\<close>

lemma execs_append: "execs (a @ b) = execs a @ execs b"
  by (simp add: execs_def)

lemma builds_append: "builds (a @ b) = builds a @ builds b"
  by (simp add: builds_def execs_append)

lemma fetches_append: "fetches (a @ b) = fetches a @ fetches b"
  by (simp add: fetches_def execs_append)

lemma execs_newCompileError: "execs (fst (newCompileError w output)) = []"
  by (simp add: newCompileError_def execs_def Let_def split: option.splits sum.splits)

lemma builds_newCompileError: "builds (fst (newCompileError w output)) = []"
  by (simp add: builds_def execs_newCompileError)

lemma fetches_newCompileError: "fetches (fst (newCompileError w output)) = []"
  by (simp add: fetches_def execs_newCompileError)

lemma execs_simps:
  "execs [] = []"
  "execs (Exec args # tr) = args # execs tr"
  "execs (Log l s # tr) = execs tr"
  "execs (RemoveAll p # tr) = execs tr"
  "execs (Mkdir p # tr) = execs tr"
  "execs (Create p # tr) = execs tr"
  "execs (WriteString p c # tr) = execs tr"
  "execs (Close p # tr) = execs tr"
  by (simp_all add: execs_def)

lemma attempt_Retry:
  assumes "attempt w goPath buildTags binName n gotten = (acts, Retry p)"
  shows "length (builds acts) = 1 \<and> fetches acts = [p] \<and> p \<notin> gotten
    \<and> \<not> snd (goBuild w n) \<and> missingPackage (fst (goBuild w n)) = Some p
    \<and> snd (goGet w n p)"
  using assms
  by (auto simp: attempt_def Let_def missingPackage_def builds_def fetches_def execs_append
      execs_simps execs_newCompileError split: if_splits option.splits)

lemma attempt_Return:
  assumes "attempt w goPath buildTags binName n gotten = (acts, Return r)"
  shows "length (builds acts) = 1
    \<and> (fetches acts = []
       \<or> (\<exists>p. fetches acts = [p] \<and> p \<notin> gotten \<and> \<not> snd (goBuild w n)
             \<and> missingPackage (fst (goBuild w n)) = Some p))"
  using assms
  by (auto simp: attempt_def Let_def missingPackage_def builds_def fetches_def execs_append
      execs_simps execs_newCompileError split: if_splits option.splits)

lemma buildLoop_terminates:
  assumes fin: "finite U"
    and rep0: "\<forall>n p. \<not> snd (goBuild w n) \<longrightarrow> missingPackage (fst (goBuild w n)) = Some p
      \<longrightarrow> p \<in> U"
  shows "card (U - gotten) = k \<Longrightarrow>
    \<exists>acts r. buildLoop w goPath buildTags binName n gotten tr = Some (tr @ acts, r)
      \<and> length (builds acts) \<le> k + 1
      \<and> length (builds acts) \<le> length (fetches acts) + 1
      \<and> distinct (fetches acts)
      \<and> set (fetches acts) \<subseteq> U - gotten"
proof (induction k arbitrary: n gotten tr)
  case 0
  note rep = rep0 [rule_format]
  from fin 0 have empty: "U - gotten = {}" by simp
  obtain acts st where a: "attempt w goPath buildTags binName n gotten = (acts, st)"
    by (cases "attempt w goPath buildTags binName n gotten")
  show ?case
  proof (cases st)
    case (Return r)
    from attempt_Return [OF a [unfolded Return]] rep empty
    have b: "length (builds acts) = 1" and f: "fetches acts = []"
      by auto
    have "buildLoop w goPath buildTags binName n gotten tr = Some (tr @ acts, r)"
      by (subst buildLoop.simps) (simp add: a Return)
    with b f show ?thesis by auto
  next
    case (Retry p)
    from attempt_Retry [OF a [unfolded Retry]]
    have "p \<notin> gotten" "\<not> snd (goBuild w n)" "missingPackage (fst (goBuild w n)) = Some p"
      by simp_all
    with rep [of n p] empty show ?thesis by blast
  qed
next
  case (Suc k)
  note rep = rep0 [rule_format]
  obtain acts st where a: "attempt w goPath buildTags binName n gotten = (acts, st)"
    by (cases "attempt w goPath buildTags binName n gotten")
  show ?case
  proof (cases st)
    case (Return r)
    from attempt_Return [OF a [unfolded Return]] rep
    have b: "length (builds acts) = 1" and f: "fetches acts = [] \<or> (\<exists>p. fetches acts = [p]
        \<and> p \<in> U - gotten)"
      by auto
    have "buildLoop w goPath buildTags binName n gotten tr = Some (tr @ acts, r)"
      by (subst buildLoop.simps) (simp add: a Return)
    with b f show ?thesis by auto
  next
    case (Retry p)
    from attempt_Retry [OF a [unfolded Retry]] rep
    have b: "length (builds acts) = 1" and f: "fetches acts = [p]" and p: "p \<in> U - gotten"
      by auto
    from p fin Suc.prems have "card (U - insert p gotten) = k"
      by (metis Diff_insert card_Diff_singleton diff_Suc_1 finite_Diff)
    from Suc.IH [OF this, of "Suc n" "tr @ acts"] obtain acts' r where IH:
      "buildLoop w goPath buildTags binName (Suc n) (insert p gotten) (tr @ acts)
         = Some ((tr @ acts) @ acts', r)"
      "length (builds acts') \<le> k + 1"
      "length (builds acts') \<le> length (fetches acts') + 1"
      "distinct (fetches acts')"
      "set (fetches acts') \<subseteq> U - insert p gotten"
      by blast
    have "buildLoop w goPath buildTags binName n gotten tr = Some (tr @ (acts @ acts'), r)"
      by (subst buildLoop.simps) (simp add: a Retry IH(1))
    moreover have "length (builds (acts @ acts')) \<le> Suc k + 1"
      using b IH(2) by (simp add: builds_append)
    moreover have "length (builds (acts @ acts')) \<le> length (fetches (acts @ acts')) + 1"
      using b f IH(3) by (simp add: builds_append fetches_append)
    moreover have "distinct (fetches (acts @ acts'))"
      using f IH(4,5) by (auto simp: fetches_append)
    moreover have "set (fetches (acts @ acts')) \<subseteq> U - gotten"
      using f p IH(5) by (auto simp: fetches_append)
    ultimately show ?thesis by blast
  qed
qed

lemma execs_prepare: "execs (fst (prepare w sourceInfo)) = []"
  by (simp add: prepare_def Let_def execs_def split: option.splits)

lemma Build_cases:
  "(\<exists>tr r. Build w = Some (tr, r) \<and> execs tr = [])
   \<or> (\<exists>goPath buildTags binName t2 mainPath. execs t2 = []
        \<and> Build w = map_option (\<lambda>(tr, r). (tr @ [Close mainPath], r))
             (buildLoop w goPath buildTags binName 0 {} t2))"
proof (cases "ProcessSource w")
  case (Inl e)
  then show ?thesis by (simp add: Build_def execs_def)
next
  case (Inr analysed)
  obtain tr res where p: "prepare w (withDbImport w analysed) = (tr, res)"
    by (cases "prepare w (withDbImport w analysed)")
  from execs_prepare [of w "withDbImport w analysed"] p have e: "execs tr = []" by simp
  show ?thesis
  proof (cases res)
    case None
    with Inr p e show ?thesis by (simp add: Build_def)
  next
    case (Some q)
    obtain mainPath goPath buildTags binName where q: "q = (mainPath, goPath, buildTags, binName)"
      by (cases q)
    from Inr p Some q have "Build w = map_option (\<lambda>(tr', r). (tr' @ [Close mainPath], r))
                 (buildLoop w goPath buildTags binName 0 {} tr)"
      by (simp add: Build_def)
    with e show ?thesis by blast
  qed
qed

text \<open>
  Claim C2, amended.  When the packages that the toolchain reports as missing are
  finitely many, \<open>Build\<close> returns; it runs the build command at most once more than
  the number of those packages, and at most once more than the number of packages it
  fetched; it never fetches the same package twice, and it fetches only packages that
  were reported as missing.
\<close>

theorem Build_terminates:
  assumes "finite (reported w)"
  shows "\<exists>tr r. Build w = Some (tr, r)
    \<and> length (builds tr) \<le> card (reported w) + 1
    \<and> length (builds tr) \<le> length (fetches tr) + 1
    \<and> distinct (fetches tr)
    \<and> set (fetches tr) \<subseteq> reported w"
proof -
  have rep: "\<forall>n p. \<not> snd (goBuild w n) \<longrightarrow> missingPackage (fst (goBuild w n)) = Some p
      \<longrightarrow> p \<in> reported w"
    by (auto simp: reported_def)
  from Build_cases [of w] show ?thesis
  proof
    assume "\<exists>tr r. Build w = Some (tr, r) \<and> execs tr = []"
    then show ?thesis by (auto simp: builds_def fetches_def)
  next
    assume "\<exists>goPath buildTags binName t2 mainPath. execs t2 = []
        \<and> Build w = map_option (\<lambda>(tr, r). (tr @ [Close mainPath], r))
             (buildLoop w goPath buildTags binName 0 {} t2)"
    then obtain goPath buildTags binName t2 mainPath where b: "execs t2 = []"
      "Build w = map_option (\<lambda>(tr, r). (tr @ [Close mainPath], r))
             (buildLoop w goPath buildTags binName 0 {} t2)"
      by blast
    from buildLoop_terminates [where w = w and U = "reported w" and gotten = "{}"
        and k = "card (reported w)" and goPath = goPath and buildTags = buildTags
        and binName = binName and n = 0 and tr = t2, OF assms rep]
    obtain acts r where l: "buildLoop w goPath buildTags binName 0 {} t2 = Some (t2 @ acts, r)"
      "length (builds acts) \<le> card (reported w) + 1"
      "length (builds acts) \<le> length (fetches acts) + 1"
      "distinct (fetches acts)" "set (fetches acts) \<subseteq> reported w"
      by auto
    have e: "execs (t2 @ acts @ [Close mainPath]) = execs acts"
      using b(1) by (simp add: execs_append execs_simps)
    have "Build w = Some (t2 @ acts @ [Close mainPath], r)"
      using b(2) l(1) by simp
    moreover have "builds (t2 @ acts @ [Close mainPath]) = builds acts"
      "fetches (t2 @ acts @ [Close mainPath]) = fetches acts"
      using e by (simp_all add: builds_def fetches_def)
    ultimately show ?thesis using l(2-5) by auto
  qed
qed


lemma findFrom_first: "matchAt r pv s = Some m \<Longrightarrow> findFrom r pv s = Some m"
  by (cases s) simp_all

lemma ms_Group_Plus_Lit:
  assumes r: "rest st = p @ b @ post" and p: "p \<noteq> []" "\<forall>x\<in>set p. inClass c x"
    and b: "b \<noteq> []" "\<not> inClass c (hd b)"
  shows "ms (Cat (Group g (Plus c)) (Lit b)) st
    = [advance (length b) (capture g st (advance (length p) st))]"
proof -
  let ?f = "\<lambda>k. ms (Lit b) (capture g st (advance k st))"
  have tw: "takeWhile (inClass c) (rest st) = p"
  proof -
    obtain y ys where "b = y # ys" using b(1) by (cases b) auto
    with b(2) r p(2) show ?thesis by (simp add: takeWhile_tail takeWhile_eq_all_conv)
  qed
  have n: "rev [1..<Suc (length p)] = length p # rev [1..<length p]"
    using p(1) by (cases p) simp_all
  have last: "?f (length p) = [advance (length b) (capture g st (advance (length p) st))]"
    using r by simp
  have others: "\<forall>k\<in>set (rev [1..<length p]). ?f k = []"
  proof
    fix k assume "k \<in> set (rev [1..<length p])"
    then have k: "k < length p" by simp
    then have "drop k (rest st) = (p ! k) # drop (Suc k) p @ b @ post"
      using r by (simp add: Cons_nth_drop_Suc)
    moreover have "inClass c (p ! k)" using k p(2) by simp
    ultimately have "take (length b) (drop k (rest st)) \<noteq> b"
      using b by (cases b) auto
    then show "?f k = []" by simp
  qed
  have "ms (Cat (Group g (Plus c)) (Lit b)) st = concat (map ?f (rev [1..<Suc (length p)]))"
    by (simp add: tw comp_def del: upt_Suc)
  also have "\<dots> = ?f (length p) @ concat (map ?f (rev [1..<length p]))"
    by (simp only: n list.map concat.simps)
  also have "concat (map ?f (rev [1..<length p])) = []"
    using others by (simp del: ms.simps)
  finally show ?thesis using last by simp
qed

lemma importErrorPattern_match:
  assumes "p \<noteq> []" "CHR 0x22 \<notin> set p"
  shows "matchAt importErrorPattern pv (''import \"'' @ p @ ''\": cannot find package'' @ post)
    = Some [''import \"'' @ p @ ''\": cannot find package'', p]"
proof -
  define st where "st = \<lparr>prev = pv, rest = ''import \"'' @ p @ ''\": cannot find package'' @ post,
    caps = Map.empty\<rparr>"
  define st1 where "st1 = advance (length ''import \"'') st"
  have r1: "rest st1 = p @ ''\": cannot find package'' @ post"
    by (simp add: st1_def st_def)
  have "ms importErrorPattern st
      = ms (Cat (Group 1 (Plus (NoneOf ''\"''))) (Lit ''\": cannot find package'')) st1"
    by (simp add: importErrorPattern_def st1_def st_def del: ms.simps(2,6))
  also have "\<dots> = [advance (length ''\": cannot find package'')
      (capture 1 st1 (advance (length p) st1))]"
    using assms by (intro ms_Group_Plus_Lit [OF r1]) auto
  finally have m: "ms importErrorPattern st = [advance (length ''\": cannot find package'')
      (capture 1 st1 (advance (length p) st1))]" .
  define st' where "st' = advance (length ''\": cannot find package'')
      (capture 1 st1 (advance (length p) st1))"
  have rs: "rest st' = post"
    by (simp add: st'_def r1)
  have "rest st = (''import \"'' @ p @ ''\": cannot find package'') @ rest st'"
    by (simp add: rs st_def)
  then have tk: "take (length (rest st) - length (rest st')) (rest st)
      = ''import \"'' @ p @ ''\": cannot find package''"
    by (rule consumed_eq)
  have "rest st1 = p @ rest (advance (length p) st1)"
    by (simp add: r1)
  from capture_caps [OF this, of 1] have cp: "caps st' 1 = Some p"
    by (simp add: st'_def)
  have ns: "numSubexp importErrorPattern = 1" by (simp add: importErrorPattern_def)
  have "matchAt importErrorPattern pv (rest st) = Some (submatches importErrorPattern st st')"
    using m by (simp add: matchAt_def st_def st'_def)
  then show ?thesis
    unfolding submatches_def tk ns using cp by (simp add: st_def)
qed

lemma missingPackage_missingOutput:
  assumes "pkg \<noteq> []" "CHR 0x22 \<notin> set pkg"
  shows "missingPackage (missingOutput pkg) = Some pkg"
proof -
  from importErrorPattern_match [OF assms, of None "[]"]
  have "matchAt importErrorPattern None (missingOutput pkg) = Some [missingOutput pkg, pkg]"
    by (simp add: missingOutput_def)
  then have "findFrom importErrorPattern None (missingOutput pkg) = Some [missingOutput pkg, pkg]"
    by (rule findFrom_first)
  then show ?thesis by (simp add: missingPackage_def FindSubmatch_def)
qed

lemma attempt_retries:
  assumes "\<not> snd (goBuild w n)" "missingPackage (fst (goBuild w n)) = Some pkg"
    "pkg \<notin> gotten" "snd (goGet w n pkg)"
  shows "\<exists>acts. attempt w goPath buildTags binName n gotten = (acts, Retry pkg)"
  using assms by (auto simp: attempt_def Let_def missingPackage_def)

lemma attempt_gives_up:
  assumes "\<not> snd (goBuild w n)" "missingPackage (fst (goBuild w n)) = Some pkg"
    "pkg \<in> gotten \<or> \<not> snd (goGet w n pkg)"
  shows "\<exists>acts. attempt w goPath buildTags binName n gotten
      = (acts, Return (Failed (snd (newCompileError w (fst (goBuild w n))))))"
  using assms by (auto simp: attempt_def Let_def missingPackage_def)

lemma endless_never_returns:
  assumes "buildLoop w goPath buildTags binName n gotten tr = Some y"
  shows "\<not> (w = endlessWorld \<and> gotten = (\<lambda>k. replicate (Suc k) CHR ''a'') ` {..<n})"
proof (rule buildLoop.raw_induct [OF _ assms])
  fix loop w goPath buildTags binName n gotten tr y
  assume IH: "\<And>w goPath buildTags binName n gotten tr y.
      loop w goPath buildTags binName n gotten tr = Some y \<Longrightarrow>
      \<not> (w = endlessWorld \<and> gotten = (\<lambda>k. replicate (Suc k) CHR ''a'') ` {..<n})"
    and step: "(case attempt w goPath buildTags binName n gotten of
        (acts, Return r) \<Rightarrow> Some (tr @ acts, r)
      | (acts, Retry pkgName) \<Rightarrow>
          loop w goPath buildTags binName (Suc n) (insert pkgName gotten) (tr @ acts)) = Some y"
  show "\<not> (w = endlessWorld \<and> gotten = (\<lambda>k. replicate (Suc k) CHR ''a'') ` {..<n})"
  proof
    assume a: "w = endlessWorld \<and> gotten = (\<lambda>k. replicate (Suc k) CHR ''a'') ` {..<n}"
    let ?pkg = "replicate (Suc n) CHR ''a''"
    have g: "goBuild w n = (missingOutput ?pkg, False)" "snd (goGet w n ?pkg)"
      using a by (simp_all add: endlessWorld_def sampleWorld_def)
    have m: "missingPackage (fst (goBuild w n)) = Some ?pkg"
      unfolding g fst_conv by (rule missingPackage_missingOutput) simp_all
    have "?pkg \<notin> gotten"
    proof
      assume "?pkg \<in> gotten"
      with a obtain k where "k < n" "?pkg = replicate (Suc k) CHR ''a''" by auto
      then have "length ?pkg = length (replicate (Suc k) CHR ''a'')" by simp
      with \<open>k < n\<close> show False by simp
    qed
    from attempt_retries [OF _ m this g(2), of goPath buildTags binName] g(1)
    obtain acts where "attempt w goPath buildTags binName n gotten = (acts, Retry ?pkg)"
      by auto
    with step have "loop w goPath buildTags binName (Suc n) (insert ?pkg gotten) (tr @ acts) = Some y"
      by simp
    from IH [OF this] a show False
      by (simp add: lessThan_Suc)
  qed
qed

lemma prepare_sampleWorld:
  "\<exists>t2. prepare (sampleWorld b g) sourceInfo
     = (t2, Some (''/go/src/blog/app/tmp/main.go'', ''/usr/bin/go'', [], ''/go/bin/blog''))"
  by (simp add: prepare_def sampleWorld_def Let_def)

text \<open>
  Claim C2, as stated, fails: when every pass of the build reports a package not seen
  before and every fetch succeeds, the retry loop never ends.
\<close>

theorem endless_fetching_counterexample: "Build endlessWorld = None"
proof (rule ccontr)
  assume "Build endlessWorld \<noteq> None"
  then obtain y where y: "Build endlessWorld = Some y" by blast
  obtain t2 where p: "prepare endlessWorld (withDbImport endlessWorld blogApp)
     = (t2, Some (''/go/src/blog/app/tmp/main.go'', ''/usr/bin/go'', [], ''/go/bin/blog''))"
    using prepare_sampleWorld unfolding endlessWorld_def by blast
  have "ProcessSource endlessWorld = Inr blogApp"
    by (simp add: endlessWorld_def sampleWorld_def)
  with y p obtain z where
    "buildLoop endlessWorld ''/usr/bin/go'' [] ''/go/bin/blog'' 0 {} t2 = Some z"
    by (auto simp: Build_def)
  from endless_never_returns [OF this] show False by simp
qed

lemma buildLoop_Return:
  "attempt w goPath buildTags binName n gotten = (acts, Return r) \<Longrightarrow>
   buildLoop w goPath buildTags binName n gotten tr = Some (tr @ acts, r)"
  by (subst buildLoop.simps) simp

lemma buildLoop_Retry:
  "attempt w goPath buildTags binName n gotten = (acts, Retry p) \<Longrightarrow>
   buildLoop w goPath buildTags binName n gotten tr
     = buildLoop w goPath buildTags binName (Suc n) (insert p gotten) (tr @ acts)"
  by (subst buildLoop.simps) simp

lemma attempt_gives_up_commands:
  assumes "goBuild w n = (out, False)" "missingPackage out = Some pkg"
    "pkg \<in> gotten \<or> \<not> snd (goGet w n pkg)"
  shows "\<exists>acts. attempt w goPath buildTags binName n gotten
        = (acts, Return (Failed (snd (newCompileError w out))))
      \<and> length (builds acts) = 1
      \<and> fetches acts = (if pkg \<in> gotten then [] else [pkg])"
  using assms
  by (auto simp: attempt_def Let_def missingPackage_def builds_def fetches_def execs_append
      execs_simps execs_newCompileError)

lemma attempt_retries_commands:
  assumes "goBuild w n = (out, False)" "missingPackage out = Some pkg"
    "pkg \<notin> gotten" "snd (goGet w n pkg)"
  shows "\<exists>acts. attempt w goPath buildTags binName n gotten = (acts, Retry pkg)
      \<and> length (builds acts) = 1 \<and> fetches acts = [pkg]"
  using assms
  by (auto simp: attempt_def Let_def missingPackage_def builds_def fetches_def execs_append
      execs_simps execs_newCompileError)

lemma second_report_fails:
  assumes "goBuild w 0 = (o0, False)" "missingPackage o0 = Some pkg" "snd (goGet w 0 pkg)"
    "goBuild w 1 = (o1, False)" "missingPackage o1 = Some pkg"
  shows "\<exists>acts. buildLoop w goPath buildTags binName 0 {} tr
        = Some (tr @ acts, Failed (snd (newCompileError w o1)))
      \<and> length (builds acts) = 2 \<and> fetches acts = [pkg]"
proof -
  from attempt_retries_commands [OF assms(1,2) _ assms(3), of "{}" goPath buildTags binName]
  obtain a0 where a0: "attempt w goPath buildTags binName 0 {} = (a0, Retry pkg)"
    "length (builds a0) = 1" "fetches a0 = [pkg]"
    by auto
  from attempt_gives_up_commands [where n = "Suc 0" and gotten = "{pkg}" and w = w
      and out = o1 and pkg = pkg and goPath = goPath and buildTags = buildTags
      and binName = binName] assms(4,5)
  obtain a1 where a1: "attempt w goPath buildTags binName (Suc 0) {pkg}
        = (a1, Return (Failed (snd (newCompileError w o1))))"
    "length (builds a1) = 1" "fetches a1 = []"
    by auto
  have "buildLoop w goPath buildTags binName 0 {} tr
      = Some (tr @ (a0 @ a1), Failed (snd (newCompileError w o1)))"
    by (simp add: buildLoop_Retry [OF a0(1)] buildLoop_Return [OF a1(1)])
  moreover have "length (builds (a0 @ a1)) = 2" "fetches (a0 @ a1) = [pkg]"
    using a0 a1 by (simp_all add: builds_append fetches_append)
  ultimately show ?thesis by blast
qed

lemma buildLoop_session:
  assumes cont: "\<forall>k<n. \<not> snd (goBuild w k) \<and> missingPackage (fst (goBuild w k)) = Some (p k)
        \<and> p k \<notin> p ` {..<k} \<and> snd (goGet w k (p k))"
    and last: "goBuild w n = (out, False)" "missingPackage out = Some pkg"
      "pkg \<in> p ` {..<n} \<or> \<not> snd (goGet w n pkg)"
  shows "d = n - k \<Longrightarrow> k \<le> n \<Longrightarrow>
    \<exists>acts. buildLoop w goPath buildTags binName k (p ` {..<k}) tr
        = Some (tr @ acts, Failed (snd (newCompileError w out)))
      \<and> length (builds acts) = Suc (n - k)
      \<and> fetches acts = map p [k..<n] @ (if pkg \<in> p ` {..<n} then [] else [pkg])"
proof (induction d arbitrary: k tr)
  case 0
  then have k: "k = n" by simp
  from attempt_gives_up_commands [OF last, of goPath buildTags binName]
  obtain acts where a: "attempt w goPath buildTags binName n (p ` {..<n})
        = (acts, Return (Failed (snd (newCompileError w out))))"
      "length (builds acts) = 1" "fetches acts = (if pkg \<in> p ` {..<n} then [] else [pkg])"
    by blast
  from buildLoop_Return [OF a(1), of tr] a(2,3) show ?case
    unfolding k by auto
next
  case (Suc d)
  then have k: "k < n" "d = n - Suc k" "Suc k \<le> n" by simp_all
  from cont k(1) have c: "\<not> snd (goBuild w k)" "missingPackage (fst (goBuild w k)) = Some (p k)"
    "p k \<notin> p ` {..<k}" "snd (goGet w k (p k))"
    by blast+
  from c(1) have g: "goBuild w k = (fst (goBuild w k), False)"
    by (cases "goBuild w k") simp
  from attempt_retries_commands [OF g c(2) c(3) c(4), of goPath buildTags binName]
  obtain a0 where a0: "attempt w goPath buildTags binName k (p ` {..<k}) = (a0, Retry (p k))"
    "length (builds a0) = 1" "fetches a0 = [p k]"
    by blast
  from Suc.IH [OF k(2,3), of "tr @ a0"]
  obtain acts where l: "buildLoop w goPath buildTags binName (Suc k) (p ` {..<Suc k}) (tr @ a0)
        = Some ((tr @ a0) @ acts, Failed (snd (newCompileError w out)))"
      "length (builds acts) = Suc (n - Suc k)"
      "fetches acts = map p [Suc k..<n] @ (if pkg \<in> p ` {..<n} then [] else [pkg])"
    by blast
  have i: "insert (p k) (p ` {..<k}) = p ` {..<Suc k}"
    by (simp add: lessThan_Suc)
  have "buildLoop w goPath buildTags binName k (p ` {..<k}) tr
      = Some (tr @ (a0 @ acts), Failed (snd (newCompileError w out)))"
    using l(1) by (simp add: buildLoop_Retry [OF a0(1)] i)
  moreover have "length (builds (a0 @ acts)) = Suc (n - k)"
    using a0(2) l(2) k(1) by (simp add: builds_append)
  moreover have "fetches (a0 @ acts)
      = map p [k..<n] @ (if pkg \<in> p ` {..<n} then [] else [pkg])"
    using a0(3) l(3) k(1) by (simp add: fetches_append upt_conv_Cons)
  ultimately show ?case by blast
qed

text \<open>
  Claim C4, amended.  Take any build session that comes to recognize a package it cannot
  go on with: in each of the passes \<open>0\<close> to \<open>n - 1\<close> the build command fails and reports
  as missing a package \<open>p k\<close> that no earlier pass of the session has fetched, and the
  fetch succeeds; in pass \<open>n\<close> the build command fails with the output \<open>out\<close> and reports
  a package that an earlier pass has fetched, or one whose fetch now fails.  Then \<open>Build\<close>
  ends in pass \<open>n\<close> with the compile error built from \<open>out\<close>, the output of the build
  command of this pass.  It has run the build command \<open>n + 1\<close> times and has fetched the
  packages \<open>p 0\<close>, ..., \<open>p (n - 1)\<close>, each once, and after them the package of pass \<open>n\<close>
  only when no earlier pass has fetched it; no other command is run.  Every session in
  which a package is recognized again, or a fetch fails, is of this form, since the
  loop reaches pass \<open>n\<close> only through \<open>n\<close> passes that fetched a new package.
\<close>

theorem Build_gives_up_on_package:
  assumes "ProcessSource w = Inr analysed"
    and "prepare w (withDbImport w analysed) = (t2, Some (mainPath, goPath, buildTags, binName))"
    and "\<forall>k<n. \<not> snd (goBuild w k) \<and> missingPackage (fst (goBuild w k)) = Some (p k)
        \<and> p k \<notin> p ` {..<k} \<and> snd (goGet w k (p k))"
    and "goBuild w n = (out, False)" and "missingPackage out = Some pkg"
    and "pkg \<in> p ` {..<n} \<or> \<not> snd (goGet w n pkg)"
  shows "\<exists>acts. Build w
        = Some (t2 @ acts @ [Close mainPath], Failed (snd (newCompileError w out)))
      \<and> length (builds acts) = Suc n
      \<and> fetches acts = map p [0..<n] @ (if pkg \<in> p ` {..<n} then [] else [pkg])"
proof -
  from buildLoop_session [OF assms(3,4,5,6) refl, of 0 goPath buildTags binName t2]
  obtain acts where l: "buildLoop w goPath buildTags binName 0 {} t2
        = Some (t2 @ acts, Failed (snd (newCompileError w out)))"
      "length (builds acts) = Suc n"
      "fetches acts = map p [0..<n] @ (if pkg \<in> p ` {..<n} then [] else [pkg])"
    by auto
  from assms(1,2) l(1)
  have "Build w = Some (t2 @ acts @ [Close mainPath], Failed (snd (newCompileError w out)))"
    by (simp add: Build_def)
  with l(2,3) show ?thesis by blast
qed

lemma pq_missing_a:
  "missingPackage (pqMissingIn ''controllers/a.go'') = Some ''github.com/lib/pq''"
  by code_simp

lemma pq_missing_b:
  "missingPackage (pqMissingIn ''models/b.go'') = Some ''github.com/lib/pq''"
  by code_simp

lemma pq_path_a:
  "FindSubmatch errorPattern (pqMissingIn ''controllers/a.go'')
     = Some [pqMissingIn ''controllers/a.go'', ''controllers/a.go'', ''3'', ''2:'',
             ''import \"github.com/lib/pq\": cannot find package'']"
  by code_simp

lemma pq_path_b:
  "FindSubmatch errorPattern (pqMissingIn ''models/b.go'')
     = Some [pqMissingIn ''models/b.go'', ''models/b.go'', ''3'', ''2:'',
             ''import \"github.com/lib/pq\": cannot find package'']"
  by code_simp

lemma retriedWorld_runs:
  "ProcessSource retriedWorld = Inr blogApp"
  "goBuild retriedWorld 0 = (pqMissingIn ''controllers/a.go'', False)"
  "snd (goGet retriedWorld 0 ''github.com/lib/pq'')"
  "goBuild retriedWorld 1 = (pqMissingIn ''models/b.go'', False)"
  by (simp_all add: retriedWorld_def sampleWorld_def)

lemma mysql_missing:
  "missingPackage mysqlMissing = Some ''github.com/go-sql-driver/mysql''"
  by code_simp


lemma twoDriversWorld_runs:
  "ProcessSource twoDriversWorld = Inr blogApp"
  "goBuild twoDriversWorld 0 = (pqMissingIn ''controllers/a.go'', False)"
  "goBuild twoDriversWorld 1 = (mysqlMissing, False)"
  "goBuild twoDriversWorld 2 = (mysqlMissing, False)"
  "snd (goGet twoDriversWorld n pkg)"
  by (simp_all add: twoDriversWorld_def sampleWorld_def)

text \<open>
  Claim C4, as stated, fails in its last part: when the package is reported a second
  time after the fetch, the error is built from the output of the second build, not
  from the output before the fetch.
\<close>

theorem second_report_uses_second_output_counterexample:
  "goBuild retriedWorld 0 = (pqMissingIn ''controllers/a.go'', False)
   \<and> missingPackage (pqMissingIn ''controllers/a.go'') = Some ''github.com/lib/pq''
   \<and> snd (goGet retriedWorld 0 ''github.com/lib/pq'')
   \<and> goBuild retriedWorld 1 = (pqMissingIn ''models/b.go'', False)
   \<and> missingPackage (pqMissingIn ''models/b.go'') = Some ''github.com/lib/pq''
   \<and> map_option snd (Build retriedWorld)
       = Some (Failed (snd (newCompileError retriedWorld (pqMissingIn ''models/b.go''))))
   \<and> Path (snd (newCompileError retriedWorld (pqMissingIn ''models/b.go''))) = ''models/b.go''
   \<and> Path (snd (newCompileError retriedWorld (pqMissingIn ''controllers/a.go'')))
       = ''controllers/a.go''
   \<and> map_option snd (Build retriedWorld)
       \<noteq> Some (Failed (snd (newCompileError retriedWorld (pqMissingIn ''controllers/a.go''))))"
proof -
  obtain t2 where p: "prepare retriedWorld (withDbImport retriedWorld blogApp)
     = (t2, Some (''/go/src/blog/app/tmp/main.go'', ''/usr/bin/go'', [], ''/go/bin/blog''))"
    using prepare_sampleWorld unfolding retriedWorld_def by blast
  from second_report_fails [OF retriedWorld_runs(2) pq_missing_a retriedWorld_runs(3,4) pq_missing_b,
      of "''/usr/bin/go''" "[]" "''/go/bin/blog''" t2]
  obtain acts where "buildLoop retriedWorld ''/usr/bin/go'' [] ''/go/bin/blog'' 0 {} t2
      = Some (t2 @ acts, Failed (snd (newCompileError retriedWorld (pqMissingIn ''models/b.go''))))"
    by blast
  with p have b: "map_option snd (Build retriedWorld)
       = Some (Failed (snd (newCompileError retriedWorld (pqMissingIn ''models/b.go''))))"
    by (simp add: Build_def retriedWorld_runs(1))
  have pb: "Path (snd (newCompileError retriedWorld (pqMissingIn ''models/b.go''))) = ''models/b.go''"
    by (simp add: newCompileError_Path pq_path_b)
  have pa: "Path (snd (newCompileError retriedWorld (pqMissingIn ''controllers/a.go'')))
       = ''controllers/a.go''"
    by (simp add: newCompileError_Path pq_path_a)
  have "snd (newCompileError retriedWorld (pqMissingIn ''models/b.go''))
      \<noteq> snd (newCompileError retriedWorld (pqMissingIn ''controllers/a.go''))"
  proof
    assume "snd (newCompileError retriedWorld (pqMissingIn ''models/b.go''))
      = snd (newCompileError retriedWorld (pqMissingIn ''controllers/a.go''))"
    then have "Path (snd (newCompileError retriedWorld (pqMissingIn ''models/b.go'')))
      = Path (snd (newCompileError retriedWorld (pqMissingIn ''controllers/a.go'')))"
      by simp
    then show False unfolding pa pb by simp
  qed
  then have "Some (Failed (snd (newCompileError retriedWorld (pqMissingIn ''models/b.go''))))
       \<noteq> Some (Failed (snd (newCompileError retriedWorld (pqMissingIn ''controllers/a.go''))))"
    by simp
  then have "map_option snd (Build retriedWorld)
       \<noteq> Some (Failed (snd (newCompileError retriedWorld (pqMissingIn ''controllers/a.go''))))"
    unfolding b .
  with b pa pb retriedWorld_runs(2,3,4) pq_missing_a pq_missing_b show ?thesis by blast
qed

theorem Build_gives_up_on_package_witness:
  "(goBuild retriedWorld 1 = (pqMissingIn ''models/b.go'', False)
    \<and> missingPackage (pqMissingIn ''models/b.go'') = Some ''github.com/lib/pq''
    \<and> (\<exists>t2 acts. Build retriedWorld
          = Some (t2 @ acts @ [Close ''/go/src/blog/app/tmp/main.go''],
              Failed (snd (newCompileError retriedWorld (pqMissingIn ''models/b.go''))))
        \<and> length (builds acts) = 2 \<and> fetches acts = [''github.com/lib/pq'']))
   \<and> (goBuild unfetchableWorld 0 = (pqMissingIn ''controllers/a.go'', False)
    \<and> missingPackage (pqMissingIn ''controllers/a.go'') = Some ''github.com/lib/pq''
    \<and> \<not> snd (goGet unfetchableWorld 0 ''github.com/lib/pq'')
    \<and> (\<exists>t2 acts. Build unfetchableWorld
          = Some (t2 @ acts @ [Close ''/go/src/blog/app/tmp/main.go''],
              Failed (snd (newCompileError unfetchableWorld (pqMissingIn ''controllers/a.go''))))
        \<and> length (builds acts) = 1 \<and> fetches acts = [''github.com/lib/pq'']))
   \<and> (goBuild twoDriversWorld 2 = (mysqlMissing, False)
    \<and> missingPackage mysqlMissing = Some ''github.com/go-sql-driver/mysql''
    \<and> (\<exists>t2 acts. Build twoDriversWorld
          = Some (t2 @ acts @ [Close ''/go/src/blog/app/tmp/main.go''],
              Failed (snd (newCompileError twoDriversWorld mysqlMissing)))
        \<and> length (builds acts) = 3
        \<and> fetches acts = [''github.com/lib/pq'', ''github.com/go-sql-driver/mysql'']))"
proof -
  obtain t1 where p1: "prepare retriedWorld (withDbImport retriedWorld blogApp)
     = (t1, Some (''/go/src/blog/app/tmp/main.go'', ''/usr/bin/go'', [], ''/go/bin/blog''))"
    using prepare_sampleWorld unfolding retriedWorld_def by blast
  have h1: "\<forall>k<1. \<not> snd (goBuild retriedWorld k)
        \<and> missingPackage (fst (goBuild retriedWorld k)) = Some ((\<lambda>k. ''github.com/lib/pq'') k)
        \<and> (\<lambda>k. ''github.com/lib/pq'') k \<notin> (\<lambda>k. ''github.com/lib/pq'') ` {..<k}
        \<and> snd (goGet retriedWorld k ((\<lambda>k. ''github.com/lib/pq'') k))"
    by (simp add: retriedWorld_runs pq_missing_a)
  have l1: "''github.com/lib/pq'' \<in> (\<lambda>k. ''github.com/lib/pq'') ` {..<1::nat}
      \<or> \<not> snd (goGet retriedWorld 1 ''github.com/lib/pq'')"
    by simp
  from Build_gives_up_on_package [where w = retriedWorld and n = 1
      and p = "\<lambda>k. ''github.com/lib/pq''", OF retriedWorld_runs(1) p1 h1 retriedWorld_runs(4)
      pq_missing_b l1]
  have "\<exists>acts. Build retriedWorld
          = Some (t1 @ acts @ [Close ''/go/src/blog/app/tmp/main.go''],
              Failed (snd (newCompileError retriedWorld (pqMissingIn ''models/b.go''))))
        \<and> length (builds acts) = 2 \<and> fetches acts = [''github.com/lib/pq'']"
    by (simp add: upt_rec numeral_2_eq_2)
  then have c1: "\<exists>t2 acts. Build retriedWorld
          = Some (t2 @ acts @ [Close ''/go/src/blog/app/tmp/main.go''],
              Failed (snd (newCompileError retriedWorld (pqMissingIn ''models/b.go''))))
        \<and> length (builds acts) = 2 \<and> fetches acts = [''github.com/lib/pq'']"
    by blast
  obtain t2 where p2: "prepare unfetchableWorld (withDbImport unfetchableWorld blogApp)
     = (t2, Some (''/go/src/blog/app/tmp/main.go'', ''/usr/bin/go'', [], ''/go/bin/blog''))"
    using prepare_sampleWorld unfolding unfetchableWorld_def by blast
  have u: "ProcessSource unfetchableWorld = Inr blogApp"
    "goBuild unfetchableWorld 0 = (pqMissingIn ''controllers/a.go'', False)"
    "\<not> snd (goGet unfetchableWorld 0 ''github.com/lib/pq'')"
    by (simp_all add: unfetchableWorld_def sampleWorld_def)
  have h2: "\<forall>k<0. \<not> snd (goBuild unfetchableWorld k)
        \<and> missingPackage (fst (goBuild unfetchableWorld k)) = Some ((\<lambda>k. []) k)
        \<and> (\<lambda>k. []) k \<notin> (\<lambda>k. []) ` {..<k}
        \<and> snd (goGet unfetchableWorld k ((\<lambda>k. []) k))"
    by simp
  have l2: "''github.com/lib/pq'' \<in> (\<lambda>k. []) ` {..<0::nat}
      \<or> \<not> snd (goGet unfetchableWorld 0 ''github.com/lib/pq'')"
    using u(3) by simp
  from Build_gives_up_on_package [where w = unfetchableWorld and n = 0
      and p = "\<lambda>k. []", OF u(1) p2 h2 u(2) pq_missing_a l2]
  have "\<exists>acts. Build unfetchableWorld
          = Some (t2 @ acts @ [Close ''/go/src/blog/app/tmp/main.go''],
              Failed (snd (newCompileError unfetchableWorld (pqMissingIn ''controllers/a.go''))))
        \<and> length (builds acts) = 1 \<and> fetches acts = [''github.com/lib/pq'']"
    by simp
  then have c2: "\<exists>t2 acts. Build unfetchableWorld
          = Some (t2 @ acts @ [Close ''/go/src/blog/app/tmp/main.go''],
              Failed (snd (newCompileError unfetchableWorld (pqMissingIn ''controllers/a.go''))))
        \<and> length (builds acts) = 1 \<and> fetches acts = [''github.com/lib/pq'']"
    by blast
  obtain t3 where p3: "prepare twoDriversWorld (withDbImport twoDriversWorld blogApp)
     = (t3, Some (''/go/src/blog/app/tmp/main.go'', ''/usr/bin/go'', [], ''/go/bin/blog''))"
    using prepare_sampleWorld unfolding twoDriversWorld_def by blast
  define drivers :: "nat \<Rightarrow> string" where
    "drivers = (\<lambda>k. if k = 0 then ''github.com/lib/pq'' else ''github.com/go-sql-driver/mysql'')"
  have d0: "drivers 0 = ''github.com/lib/pq''" "drivers 1 = ''github.com/go-sql-driver/mysql''"
    "drivers (Suc 0) = ''github.com/go-sql-driver/mysql''"
    by (simp_all add: drivers_def)
  have d1: "drivers ` {..<0} = {}" "drivers ` {..<1} = {''github.com/lib/pq''}"
    "drivers ` {..<2} = {''github.com/lib/pq'', ''github.com/go-sql-driver/mysql''}"
    using d0 by (auto simp: lessThan_Suc numeral_2_eq_2)
  have d2: "map drivers [0..<2] = [''github.com/lib/pq'', ''github.com/go-sql-driver/mysql'']"
    using d0 by (simp add: numeral_2_eq_2 upt_rec)
  note d = d0 d1 d2
  have h3: "\<forall>k<2. \<not> snd (goBuild twoDriversWorld k)
        \<and> missingPackage (fst (goBuild twoDriversWorld k)) = Some (drivers k)
        \<and> drivers k \<notin> drivers ` {..<k}
        \<and> snd (goGet twoDriversWorld k (drivers k))"
  proof (intro allI impI)
    fix k :: nat
    assume "k < 2"
    then consider "k = 0" | "k = 1" by arith
    then show "\<not> snd (goBuild twoDriversWorld k)
        \<and> missingPackage (fst (goBuild twoDriversWorld k)) = Some (drivers k)
        \<and> drivers k \<notin> drivers ` {..<k}
        \<and> snd (goGet twoDriversWorld k (drivers k))"
    proof cases
      case 1
      with twoDriversWorld_runs(2,5) pq_missing_a d0 d1 show ?thesis
        by simp
    next
      case 2
      with twoDriversWorld_runs(3,5) mysql_missing d0 d1 show ?thesis
        by (simp add: lessThan_Suc)
    qed
  qed
  have l3: "''github.com/go-sql-driver/mysql'' \<in> drivers ` {..<2}
      \<or> \<not> snd (goGet twoDriversWorld 2 ''github.com/go-sql-driver/mysql'')"
    by (simp add: d)
  from Build_gives_up_on_package [where w = twoDriversWorld and n = 2 and p = drivers,
      OF twoDriversWorld_runs(1) p3 h3 twoDriversWorld_runs(4) mysql_missing l3]
  have "\<exists>acts. Build twoDriversWorld
          = Some (t3 @ acts @ [Close ''/go/src/blog/app/tmp/main.go''],
              Failed (snd (newCompileError twoDriversWorld mysqlMissing)))
        \<and> length (builds acts) = 3
        \<and> fetches acts = [''github.com/lib/pq'', ''github.com/go-sql-driver/mysql'']"
    by (simp add: d)
  then have c3: "\<exists>t2 acts. Build twoDriversWorld
          = Some (t2 @ acts @ [Close ''/go/src/blog/app/tmp/main.go''],
              Failed (snd (newCompileError twoDriversWorld mysqlMissing)))
        \<and> length (builds acts) = 3
        \<and> fetches acts = [''github.com/lib/pq'', ''github.com/go-sql-driver/mysql'']"
    by blast
  from c1 retriedWorld_runs(4) pq_missing_b c2 u(2,3) pq_missing_a c3 twoDriversWorld_runs(4)
    mysql_missing
  show ?thesis by blast
qed

lemma attempt_success:
  assumes "snd (goBuild w n)"
  shows "\<exists>acts. attempt w goPath buildTags binName n gotten = (acts, Return (Built binName))
      \<and> builds acts = [[goPath, ''build'', ''-tags'', buildTags, ''-o'', binName,
            Join w [AppImportPath w, ''app'', ''tmp'']]]
      \<and> fetches acts = []"
  using assms
  by (simp add: attempt_def Let_def builds_def fetches_def execs_simps)

lemma reported_fetchOnceWorld: "reported fetchOnceWorld = {''github.com/lib/pq''}"
proof -
  have g: "\<And>n. goBuild fetchOnceWorld n
      = (if n = 0 then (pqMissingIn ''controllers/a.go'', False) else ([], True))"
    by (simp add: fetchOnceWorld_def sampleWorld_def)
  show ?thesis
    unfolding reported_def g using pq_missing_a by (auto split: if_splits)
qed

theorem Build_terminates_witness:
  "finite (reported fetchOnceWorld)
   \<and> reported fetchOnceWorld = {''github.com/lib/pq''}
   \<and> (\<exists>tr r. Build fetchOnceWorld = Some (tr, r)
        \<and> length (builds tr) \<le> card (reported fetchOnceWorld) + 1
        \<and> length (builds tr) \<le> length (fetches tr) + 1
        \<and> distinct (fetches tr)
        \<and> set (fetches tr) \<subseteq> reported fetchOnceWorld)
   \<and> (\<exists>tr. Build fetchOnceWorld = Some (tr, Built ''/go/bin/blog'')
        \<and> length (builds tr) = 2 \<and> fetches tr = [''github.com/lib/pq''])"
proof -
  have f: "finite (reported fetchOnceWorld)"
    by (simp add: reported_fetchOnceWorld)
  note T = Build_terminates [OF f]
  obtain t2 where p: "prepare fetchOnceWorld (withDbImport fetchOnceWorld blogApp)
     = (t2, Some (''/go/src/blog/app/tmp/main.go'', ''/usr/bin/go'', [], ''/go/bin/blog''))"
    using prepare_sampleWorld unfolding fetchOnceWorld_def by blast
  from execs_prepare [of fetchOnceWorld "withDbImport fetchOnceWorld blogApp"] p
  have e: "execs t2 = []" by simp
  have g: "goBuild fetchOnceWorld 0 = (pqMissingIn ''controllers/a.go'', False)"
    "snd (goGet fetchOnceWorld 0 ''github.com/lib/pq'')" "snd (goBuild fetchOnceWorld (Suc 0))"
    "ProcessSource fetchOnceWorld = Inr blogApp"
    by (simp_all add: fetchOnceWorld_def sampleWorld_def)
  from attempt_retries_commands [OF g(1) pq_missing_a _ g(2), of "{}" "''/usr/bin/go''" "[]"
      "''/go/bin/blog''"]
  obtain a0 where a0: "attempt fetchOnceWorld ''/usr/bin/go'' [] ''/go/bin/blog'' 0 {}
      = (a0, Retry ''github.com/lib/pq'')" "length (builds a0) = 1"
      "fetches a0 = [''github.com/lib/pq'']"
    by auto
  from attempt_success [OF g(3), of "''/usr/bin/go''" "[]" "''/go/bin/blog''"
      "{''github.com/lib/pq''}"]
  obtain a1 where a1: "attempt fetchOnceWorld ''/usr/bin/go'' [] ''/go/bin/blog'' (Suc 0)
      {''github.com/lib/pq''} = (a1, Return (Built ''/go/bin/blog''))"
      "length (builds a1) = 1" "fetches a1 = []"
    by auto
  have "buildLoop fetchOnceWorld ''/usr/bin/go'' [] ''/go/bin/blog'' 0 {} t2
      = Some (t2 @ a0 @ a1, Built ''/go/bin/blog'')"
    by (simp add: buildLoop_Retry [OF a0(1)] buildLoop_Return [OF a1(1)])
  with p g(4) have b: "Build fetchOnceWorld
      = Some (t2 @ a0 @ a1 @ [Close ''/go/src/blog/app/tmp/main.go''], Built ''/go/bin/blog'')"
    by (simp add: Build_def)
  have "builds (t2 @ a0 @ a1 @ [Close ''/go/src/blog/app/tmp/main.go'']) = builds a0 @ builds a1"
    "fetches (t2 @ a0 @ a1 @ [Close ''/go/src/blog/app/tmp/main.go'']) = fetches a0 @ fetches a1"
    using e by (simp_all add: builds_def fetches_def execs_append execs_simps)
  with a0 a1 have "length (builds (t2 @ a0 @ a1 @ [Close ''/go/src/blog/app/tmp/main.go''])) = 2"
    "fetches (t2 @ a0 @ a1 @ [Close ''/go/src/blog/app/tmp/main.go'']) = [''github.com/lib/pq'']"
    by simp_all
  with b have "\<exists>tr. Build fetchOnceWorld = Some (tr, Built ''/go/bin/blog'')
        \<and> length (builds tr) = 2 \<and> fetches tr = [''github.com/lib/pq'']"
    by blast
  with f T reported_fetchOnceWorld show ?thesis by blast
qed

section \<open>Preparation and the database import: claims\<close>


lemma prepare_trace:
  "fst (prepare w sourceInfo) =
     (let tmpPath = Join w [AppPath w, ''tmp''];
          mainPath = Join w [tmpPath, ''main.go''];
          source = registerControllerSource w sourceInfo;
          t1 = RemoveAll tmpPath
               # (case os_RemoveAll w tmpPath of
                    Some err \<Rightarrow> [Log ERROR (Sprintln [''Failed to remove tmp dir:'', err])]
                  | None \<Rightarrow> [])
      in case os_Mkdir w tmpPath of
           Some err \<Rightarrow> t1 @ [Mkdir tmpPath, Log ERROR (''Failed to make tmp directory: '' @ err)]
         | None \<Rightarrow>
        (case os_Create w mainPath of
           Some err \<Rightarrow> t1 @ [Mkdir tmpPath, Create mainPath,
                    Log ERROR (''Failed to create main.go: '' @ err)]
         | None \<Rightarrow>
        (case file_WriteString w mainPath source of
           Some err \<Rightarrow> t1 @ [Mkdir tmpPath, Create mainPath, WriteString mainPath source,
                    Log ERROR (''Failed to write to main.go: '' @ err)]
         | None \<Rightarrow>
             t1 @ [Mkdir tmpPath, Create mainPath, WriteString mainPath source]
             @ (case LookPath w ''go'' of
                  None \<Rightarrow> [Log ERROR ''Go executable not found in PATH.'']
                | Some goPath \<Rightarrow>
                    (case BinDir w (AppImportPath w) of
                       None \<Rightarrow> [Log ERROR (Sprintln [''Failure importing'', AppImportPath w])]
                     | Some binDir \<Rightarrow> [])))))"
  by (simp add: prepare_def Let_def split: option.splits)


lemma prepare_Exit:
  "snd (prepare w sourceInfo) = None \<Longrightarrow> ProcessSource w = Inr analysed \<Longrightarrow>
   sourceInfo = withDbImport w analysed \<Longrightarrow>
   Build w = Some (fst (prepare w sourceInfo), Exit)"
  by (cases "prepare w sourceInfo") (simp add: Build_def)

lemma buildLoopWithin_Some:
  "buildLoopWithin k w goPath buildTags binName n gotten tr = (tr', Some r) \<Longrightarrow>
   buildLoop w goPath buildTags binName n gotten tr = Some (tr', r)"
proof (induction k arbitrary: n gotten tr)
  case 0
  then show ?case by simp
next
  case (Suc k)
  obtain acts st where a: "attempt w goPath buildTags binName n gotten = (acts, st)"
    by (cases "attempt w goPath buildTags binName n gotten")
  show ?case
  proof (cases st)
    case (Return r')
    with Suc.prems a show ?thesis
      by (simp add: buildLoop_Return)
  next
    case (Retry pkgName)
    with Suc.prems a
    have "buildLoopWithin k w goPath buildTags binName (Suc n) (insert pkgName gotten) (tr @ acts)
        = (tr', Some r)"
      by simp
    from Suc.IH [OF this] a Retry show ?thesis
      by (simp add: buildLoop_Retry)
  qed
qed

lemma buildLoop_within:
  assumes "buildLoop w goPath buildTags binName n gotten tr = Some y"
  shows "\<exists>k. buildLoopWithin k w goPath buildTags binName n gotten tr = (fst y, Some (snd y))"
proof (rule buildLoop.raw_induct [OF _ assms])
  fix loop w goPath buildTags binName n gotten tr y
  assume IH: "\<And>w goPath buildTags binName n gotten tr y.
      loop w goPath buildTags binName n gotten tr = Some y \<Longrightarrow>
      \<exists>k. buildLoopWithin k w goPath buildTags binName n gotten tr = (fst y, Some (snd y))"
    and step: "(case attempt w goPath buildTags binName n gotten of
        (acts, Return r) \<Rightarrow> Some (tr @ acts, r)
      | (acts, Retry pkgName) \<Rightarrow>
          loop w goPath buildTags binName (Suc n) (insert pkgName gotten) (tr @ acts)) = Some y"
  obtain acts st where a: "attempt w goPath buildTags binName n gotten = (acts, st)"
    by (cases "attempt w goPath buildTags binName n gotten")
  show "\<exists>k. buildLoopWithin k w goPath buildTags binName n gotten tr = (fst y, Some (snd y))"
  proof (cases st)
    case (Return r)
    with step a have "buildLoopWithin (Suc 0) w goPath buildTags binName n gotten tr
        = (fst y, Some (snd y))"
      by auto
    then show ?thesis by blast
  next
    case (Retry p)
    with step a have "loop w goPath buildTags binName (Suc n) (insert p gotten) (tr @ acts) = Some y"
      by simp
    from IH [OF this] obtain k where
      "buildLoopWithin k w goPath buildTags binName (Suc n) (insert p gotten) (tr @ acts)
         = (fst y, Some (snd y))"
      by blast
    with a Retry have "buildLoopWithin (Suc k) w goPath buildTags binName n gotten tr
        = (fst y, Some (snd y))"
      by simp
    then show ?thesis by blast
  qed
qed

lemma buildLoopWithin_prefix:
  "\<exists>later. fst (buildLoopWithin k w goPath buildTags binName n gotten tr) = tr @ later"
proof (induction k arbitrary: n gotten tr)
  case 0
  then show ?case by simp
next
  case (Suc k)
  obtain acts st where a: "attempt w goPath buildTags binName n gotten = (acts, st)"
    by (cases "attempt w goPath buildTags binName n gotten")
  show ?case
  proof (cases st)
    case (Return r)
    with a show ?thesis by simp
  next
    case (Retry pkgName)
    from Suc.IH [of "Suc n" "insert pkgName gotten" "tr @ acts"] obtain later where
      "fst (buildLoopWithin k w goPath buildTags binName (Suc n) (insert pkgName gotten) (tr @ acts))
         = (tr @ acts) @ later"
      by blast
    with a Retry show ?thesis by simp
  qed
qed

lemma Build_iff_within:
  "Build w = Some (tr, r) \<longleftrightarrow> (\<exists>k. BuildWithin k w = (tr, Some r))"
proof (cases "ProcessSource w")
  case (Inl compileError)
  then show ?thesis by (auto simp: Build_def BuildWithin_def)
next
  case (Inr analysed)
  obtain t2 res where p: "prepare w (withDbImport w analysed) = (t2, res)"
    by (cases "prepare w (withDbImport w analysed)")
  show ?thesis
  proof (cases res)
    case None
    with Inr p show ?thesis by (auto simp: Build_def BuildWithin_def)
  next
    case (Some q)
    obtain mainPath goPath buildTags binName where q: "q = (mainPath, goPath, buildTags, binName)"
      by (cases q)
    show ?thesis
    proof
      assume "Build w = Some (tr, r)"
      with Inr p Some q obtain y where y: "buildLoop w goPath buildTags binName 0 {} t2 = Some y"
        "tr = fst y @ [Close mainPath]" "r = snd y"
        by (auto simp: Build_def)
      from buildLoop_within [OF y(1)] obtain k where
        "buildLoopWithin k w goPath buildTags binName 0 {} t2 = (fst y, Some (snd y))"
        by blast
      with Inr p Some q y(2,3) have "BuildWithin k w = (tr, Some r)"
        by (simp add: BuildWithin_def)
      then show "\<exists>k. BuildWithin k w = (tr, Some r)" by blast
    next
      assume "\<exists>k. BuildWithin k w = (tr, Some r)"
      then obtain k where k: "BuildWithin k w = (tr, Some r)" by blast
      obtain tr' res' where l: "buildLoopWithin k w goPath buildTags binName 0 {} t2 = (tr', res')"
        by (cases "buildLoopWithin k w goPath buildTags binName 0 {} t2")
      with k Inr p Some q have "res' = Some r" "tr = tr' @ [Close mainPath]"
        by (auto simp: BuildWithin_def split: option.splits)
      with l buildLoopWithin_Some [of k w goPath buildTags binName 0 "{}" t2 tr' r]
      have "buildLoop w goPath buildTags binName 0 {} t2 = Some (tr', r)"
        by simp
      with Inr p Some q \<open>tr = tr' @ [Close mainPath]\<close> show "Build w = Some (tr, r)"
        by (simp add: Build_def)
    qed
  qed
qed

lemma BuildWithin_prefix:
  assumes "ProcessSource w = Inr analysed"
  shows "\<exists>later. fst (BuildWithin k w) = fst (prepare w (withDbImport w analysed)) @ later"
proof -
  obtain t2 res where p: "prepare w (withDbImport w analysed) = (t2, res)"
    by (cases "prepare w (withDbImport w analysed)")
  show ?thesis
  proof (cases res)
    case None
    with assms p show ?thesis by (simp add: BuildWithin_def)
  next
    case (Some q)
    obtain mainPath goPath buildTags binName where q: "q = (mainPath, goPath, buildTags, binName)"
      by (cases q)
    obtain tr' res' where l: "buildLoopWithin k w goPath buildTags binName 0 {} t2 = (tr', res')"
      by (cases "buildLoopWithin k w goPath buildTags binName 0 {} t2")
    from buildLoopWithin_prefix [of k w goPath buildTags binName 0 "{}" t2] l
    obtain later where "tr' = t2 @ later" by auto
    with assms p Some q l show ?thesis
      by (cases res') (simp_all add: BuildWithin_def)
  qed
qed

text \<open>
  Claim C8.  After a successful source analysis \<open>Build\<close> removes the scratch directory,
  creates it again, creates \<^verbatim>\<open>main.go\<close> in it and writes the generated source to it, in
  this order.  A failure to clear the directory, to create it, to create \<^verbatim>\<open>main.go\<close> or to
  write it is logged and stops the process: no later step runs, no command is executed
  and nothing is retried.  The code itself only logs a failed \<^verbatim>\<open>os.RemoveAll\<close> and goes on to
  \<^verbatim>\<open>os.Mkdir\<close>; that the failure is fatal rests on the file system, where a directory that
  could not be removed is still there (or cannot be reached), so that \<^verbatim>\<open>os.Mkdir\<close> of the
  same path fails too.  This is the second assumption.  When all four steps succeed,
  they are the first four actions of \<open>Build\<close> whatever happens later, also in a run that
  never leaves the retry loop: this is stated of \<open>BuildWithin k\<close> for every number \<open>k\<close> of
  passes, and the runs of \<open>Build\<close> that return are those of \<open>BuildWithin\<close> that have ended.
\<close>

theorem prepare_failures_are_fatal:
  assumes "ProcessSource w = Inr analysed"
    and "os_RemoveAll w (scratchDir w) \<noteq> None \<longrightarrow> os_Mkdir w (scratchDir w) \<noteq> None"
  shows "(\<forall>err. os_RemoveAll w (scratchDir w) = Some err \<longrightarrow>
        (\<exists>err'. os_Mkdir w (scratchDir w) = Some err'
           \<and> Build w = Some ([RemoveAll (scratchDir w),
               Log ERROR (Sprintln [''Failed to remove tmp dir:'', err]), Mkdir (scratchDir w),
               Log ERROR (''Failed to make tmp directory: '' @ err')], Exit)))
    \<and> (\<forall>err. os_Mkdir w (scratchDir w) = Some err \<longrightarrow>
        Build w = Some (clearing w @ [Mkdir (scratchDir w),
          Log ERROR (''Failed to make tmp directory: '' @ err)], Exit))
    \<and> (\<forall>err. os_Mkdir w (scratchDir w) = None \<and> os_Create w (entryPoint w) = Some err \<longrightarrow>
        Build w = Some ([RemoveAll (scratchDir w), Mkdir (scratchDir w), Create (entryPoint w),
          Log ERROR (''Failed to create main.go: '' @ err)], Exit))
    \<and> (\<forall>err. os_Mkdir w (scratchDir w) = None \<and> os_Create w (entryPoint w) = None
          \<and> file_WriteString w (entryPoint w)
                (registerControllerSource w (withDbImport w analysed)) = Some err \<longrightarrow>
        Build w = Some ([RemoveAll (scratchDir w), Mkdir (scratchDir w), Create (entryPoint w),
          WriteString (entryPoint w) (registerControllerSource w (withDbImport w analysed)),
          Log ERROR (''Failed to write to main.go: '' @ err)], Exit))
    \<and> (os_Mkdir w (scratchDir w) = None \<and> os_Create w (entryPoint w) = None
          \<and> file_WriteString w (entryPoint w)
                (registerControllerSource w (withDbImport w analysed)) = None \<longrightarrow>
        (\<forall>k. \<exists>later. fst (BuildWithin k w)
           = [RemoveAll (scratchDir w), Mkdir (scratchDir w), Create (entryPoint w),
              WriteString (entryPoint w) (registerControllerSource w (withDbImport w analysed))]
             @ later))
    \<and> (\<forall>tr r. Build w = Some (tr, r) \<longleftrightarrow> (\<exists>k. BuildWithin k w = (tr, Some r)))"
proof -
  have A: "\<forall>err. os_RemoveAll w (scratchDir w) = Some err \<longrightarrow>
        (\<exists>err'. os_Mkdir w (scratchDir w) = Some err'
           \<and> Build w = Some ([RemoveAll (scratchDir w),
               Log ERROR (Sprintln [''Failed to remove tmp dir:'', err]), Mkdir (scratchDir w),
               Log ERROR (''Failed to make tmp directory: '' @ err')], Exit))"
  proof (intro allI impI)
    fix err
    assume a: "os_RemoveAll w (scratchDir w) = Some err"
    with assms(2) obtain err' where b: "os_Mkdir w (scratchDir w) = Some err'"
      by auto
    with a have "prepare w (withDbImport w analysed) = ([RemoveAll (scratchDir w),
               Log ERROR (Sprintln [''Failed to remove tmp dir:'', err]), Mkdir (scratchDir w),
               Log ERROR (''Failed to make tmp directory: '' @ err')], None)"
      by (simp add: prepare_def Let_def scratchDir_def)
    with assms(1) b show "\<exists>err'. os_Mkdir w (scratchDir w) = Some err'
           \<and> Build w = Some ([RemoveAll (scratchDir w),
               Log ERROR (Sprintln [''Failed to remove tmp dir:'', err]), Mkdir (scratchDir w),
               Log ERROR (''Failed to make tmp directory: '' @ err')], Exit)"
      by (simp add: Build_def)
  qed
  have B: "\<forall>err. os_Mkdir w (scratchDir w) = Some err \<longrightarrow>
        Build w = Some (clearing w @ [Mkdir (scratchDir w),
          Log ERROR (''Failed to make tmp directory: '' @ err)], Exit)"
  proof (intro allI impI)
    fix err
    assume a: "os_Mkdir w (scratchDir w) = Some err"
    then have "prepare w (withDbImport w analysed) = (clearing w @ [Mkdir (scratchDir w),
          Log ERROR (''Failed to make tmp directory: '' @ err)], None)"
      by (simp add: prepare_def Let_def scratchDir_def clearing_def)
    with assms(1) show "Build w = Some (clearing w @ [Mkdir (scratchDir w),
          Log ERROR (''Failed to make tmp directory: '' @ err)], Exit)"
      by (simp add: Build_def)
  qed
  have cl: "os_Mkdir w (scratchDir w) = None \<Longrightarrow> clearing w = [RemoveAll (scratchDir w)]"
    using assms(2) by (auto simp: clearing_def)
  have C: "\<forall>err. os_Mkdir w (scratchDir w) = None \<and> os_Create w (entryPoint w) = Some err \<longrightarrow>
        Build w = Some ([RemoveAll (scratchDir w), Mkdir (scratchDir w), Create (entryPoint w),
          Log ERROR (''Failed to create main.go: '' @ err)], Exit)"
  proof (intro allI impI)
    fix err
    assume a: "os_Mkdir w (scratchDir w) = None \<and> os_Create w (entryPoint w) = Some err"
    then have "prepare w (withDbImport w analysed) = (clearing w @ [Mkdir (scratchDir w),
          Create (entryPoint w), Log ERROR (''Failed to create main.go: '' @ err)], None)"
      by (simp add: prepare_def Let_def scratchDir_def entryPoint_def clearing_def)
    with assms(1) a cl show "Build w = Some ([RemoveAll (scratchDir w), Mkdir (scratchDir w),
          Create (entryPoint w), Log ERROR (''Failed to create main.go: '' @ err)], Exit)"
      by (simp add: Build_def)
  qed
  have D: "\<forall>err. os_Mkdir w (scratchDir w) = None \<and> os_Create w (entryPoint w) = None
          \<and> file_WriteString w (entryPoint w)
                (registerControllerSource w (withDbImport w analysed)) = Some err \<longrightarrow>
        Build w = Some ([RemoveAll (scratchDir w), Mkdir (scratchDir w), Create (entryPoint w),
          WriteString (entryPoint w) (registerControllerSource w (withDbImport w analysed)),
          Log ERROR (''Failed to write to main.go: '' @ err)], Exit)"
  proof (intro allI impI)
    fix err
    assume a: "os_Mkdir w (scratchDir w) = None \<and> os_Create w (entryPoint w) = None
          \<and> file_WriteString w (entryPoint w)
                (registerControllerSource w (withDbImport w analysed)) = Some err"
    then have "prepare w (withDbImport w analysed) = (clearing w @ [Mkdir (scratchDir w),
          Create (entryPoint w),
          WriteString (entryPoint w) (registerControllerSource w (withDbImport w analysed)),
          Log ERROR (''Failed to write to main.go: '' @ err)], None)"
      by (simp add: prepare_def Let_def scratchDir_def entryPoint_def clearing_def)
    with assms(1) a cl show "Build w = Some ([RemoveAll (scratchDir w), Mkdir (scratchDir w),
          Create (entryPoint w),
          WriteString (entryPoint w) (registerControllerSource w (withDbImport w analysed)),
          Log ERROR (''Failed to write to main.go: '' @ err)], Exit)"
      by (simp add: Build_def)
  qed
  have E: "os_Mkdir w (scratchDir w) = None \<and> os_Create w (entryPoint w) = None
          \<and> file_WriteString w (entryPoint w)
                (registerControllerSource w (withDbImport w analysed)) = None \<longrightarrow>
        (\<forall>k. \<exists>later. fst (BuildWithin k w)
           = [RemoveAll (scratchDir w), Mkdir (scratchDir w), Create (entryPoint w),
              WriteString (entryPoint w) (registerControllerSource w (withDbImport w analysed))]
             @ later)"
  proof (intro allI impI)
    fix k
    assume a: "os_Mkdir w (scratchDir w) = None \<and> os_Create w (entryPoint w) = None
          \<and> file_WriteString w (entryPoint w)
                (registerControllerSource w (withDbImport w analysed)) = None"
    then have "\<exists>more_acts. fst (prepare w (withDbImport w analysed))
        = clearing w @ [Mkdir (scratchDir w), Create (entryPoint w),
            WriteString (entryPoint w) (registerControllerSource w (withDbImport w analysed))]
          @ more_acts"
      by (simp add: prepare_trace Let_def scratchDir_def entryPoint_def clearing_def)
    with a cl obtain more_acts where "fst (prepare w (withDbImport w analysed))
        = [RemoveAll (scratchDir w), Mkdir (scratchDir w), Create (entryPoint w),
            WriteString (entryPoint w) (registerControllerSource w (withDbImport w analysed))]
          @ more_acts"
      by auto
    moreover from BuildWithin_prefix [OF assms(1), of k] obtain later where
      "fst (BuildWithin k w) = fst (prepare w (withDbImport w analysed)) @ later"
      by blast
    ultimately show "\<exists>later. fst (BuildWithin k w)
           = [RemoveAll (scratchDir w), Mkdir (scratchDir w), Create (entryPoint w),
              WriteString (entryPoint w) (registerControllerSource w (withDbImport w analysed))]
             @ later"
      by simp
  qed
  have F: "\<forall>tr r. Build w = Some (tr, r) \<longleftrightarrow> (\<exists>k. BuildWithin k w = (tr, Some r))"
    using Build_iff_within by blast
  from A B C D E F show ?thesis by blast
qed

lemma updated_world_fields:
  "ProcessSource readOnlyWorld = Inr blogApp" "ProcessSource noCreateWorld = Inr blogApp"
  "ProcessSource diskFullWorld = Inr blogApp" "ProcessSource idleWorld = Inr blogApp"
  "scratchDir readOnlyWorld = ''/go/src/blog/app/tmp''"
  "scratchDir noCreateWorld = ''/go/src/blog/app/tmp''"
  "scratchDir diskFullWorld = ''/go/src/blog/app/tmp''"
  "scratchDir idleWorld = ''/go/src/blog/app/tmp''"
  "entryPoint noCreateWorld = ''/go/src/blog/app/tmp/main.go''"
  "entryPoint diskFullWorld = ''/go/src/blog/app/tmp/main.go''"
  "entryPoint idleWorld = ''/go/src/blog/app/tmp/main.go''"
  "clearing readOnlyWorld = [RemoveAll ''/go/src/blog/app/tmp'']"
  "clearing noCreateWorld = [RemoveAll ''/go/src/blog/app/tmp'']"
  "clearing diskFullWorld = [RemoveAll ''/go/src/blog/app/tmp'']"
  "clearing idleWorld = [RemoveAll ''/go/src/blog/app/tmp'']"
  by (simp_all add: readOnlyWorld_def noCreateWorld_def diskFullWorld_def idleWorld_def
      sampleWorld_def scratchDir_def entryPoint_def clearing_def)

lemma idleWorld_builds: "\<exists>tr. Build idleWorld = Some (tr, Built ''/go/bin/blog'')"
proof -
  obtain t2 where p: "prepare idleWorld (withDbImport idleWorld blogApp)
     = (t2, Some (''/go/src/blog/app/tmp/main.go'', ''/usr/bin/go'', [], ''/go/bin/blog''))"
    using prepare_sampleWorld unfolding idleWorld_def by blast
  have g: "snd (goBuild idleWorld 0)"
    by (simp add: idleWorld_def sampleWorld_def)
  from attempt_success [OF g, of "''/usr/bin/go''" "[]" "''/go/bin/blog''" "{}"]
  obtain a0 where "attempt idleWorld ''/usr/bin/go'' [] ''/go/bin/blog'' 0 {}
      = (a0, Return (Built ''/go/bin/blog''))"
    by blast
  from p updated_world_fields(4) buildLoop_Return [OF this, of t2] show ?thesis
    by (simp add: Build_def)
qed

lemma failing_world_fields:
  "ProcessSource stuckTmpWorld = Inr blogApp" "ProcessSource endlessWorld = Inr blogApp"
  "scratchDir stuckTmpWorld = ''/go/src/blog/app/tmp''"
  "scratchDir endlessWorld = ''/go/src/blog/app/tmp''"
  "entryPoint endlessWorld = ''/go/src/blog/app/tmp/main.go''"
  "os_RemoveAll stuckTmpWorld ''/go/src/blog/app/tmp''
     = Some ''unlinkat /go/src/blog/app/tmp: permission denied''"
  "os_Mkdir stuckTmpWorld ''/go/src/blog/app/tmp''
     = Some ''mkdir /go/src/blog/app/tmp: file exists''"
  "os_RemoveAll readOnlyWorld p = None" "os_RemoveAll noCreateWorld p = None"
  "os_RemoveAll diskFullWorld p = None" "os_RemoveAll idleWorld p = None"
  "os_RemoveAll endlessWorld p = None"
  by (simp_all add: stuckTmpWorld_def readOnlyWorld_def noCreateWorld_def diskFullWorld_def
      idleWorld_def endlessWorld_def sampleWorld_def scratchDir_def entryPoint_def)

theorem prepare_failures_are_fatal_witness:
  "os_RemoveAll stuckTmpWorld (scratchDir stuckTmpWorld)
     = Some ''unlinkat /go/src/blog/app/tmp: permission denied''
   \<and> Build stuckTmpWorld = Some ([RemoveAll ''/go/src/blog/app/tmp'',
        Log ERROR (Sprintln [''Failed to remove tmp dir:'',
          ''unlinkat /go/src/blog/app/tmp: permission denied'']),
        Mkdir ''/go/src/blog/app/tmp'',
        Log ERROR ''Failed to make tmp directory: mkdir /go/src/blog/app/tmp: file exists''],
        Exit)
   \<and> os_Mkdir readOnlyWorld (scratchDir readOnlyWorld)
     = Some ''mkdir /go/src/blog/app/tmp: permission denied''
   \<and> Build readOnlyWorld = Some ([RemoveAll ''/go/src/blog/app/tmp'', Mkdir ''/go/src/blog/app/tmp'',
        Log ERROR ''Failed to make tmp directory: mkdir /go/src/blog/app/tmp: permission denied''],
        Exit)
   \<and> (os_Mkdir noCreateWorld (scratchDir noCreateWorld) = None
      \<and> os_Create noCreateWorld (entryPoint noCreateWorld)
        = Some ''open /go/src/blog/app/tmp/main.go: permission denied'')
   \<and> Build noCreateWorld = Some ([RemoveAll ''/go/src/blog/app/tmp'', Mkdir ''/go/src/blog/app/tmp'',
        Create ''/go/src/blog/app/tmp/main.go'',
        Log ERROR ''Failed to create main.go: open /go/src/blog/app/tmp/main.go: permission denied''],
        Exit)
   \<and> (os_Mkdir diskFullWorld (scratchDir diskFullWorld) = None
      \<and> os_Create diskFullWorld (entryPoint diskFullWorld) = None
      \<and> file_WriteString diskFullWorld (entryPoint diskFullWorld)
           (registerControllerSource diskFullWorld (withDbImport diskFullWorld blogApp))
        = Some ''write /go/src/blog/app/tmp/main.go: no space left on device'')
   \<and> Build diskFullWorld = Some ([RemoveAll ''/go/src/blog/app/tmp'', Mkdir ''/go/src/blog/app/tmp'',
        Create ''/go/src/blog/app/tmp/main.go'',
        WriteString ''/go/src/blog/app/tmp/main.go''
          (registerControllerSource diskFullWorld (withDbImport diskFullWorld blogApp)),
        Log ERROR ''Failed to write to main.go: write /go/src/blog/app/tmp/main.go: no space left on device''],
        Exit)
   \<and> (os_Mkdir endlessWorld (scratchDir endlessWorld) = None
      \<and> os_Create endlessWorld (entryPoint endlessWorld) = None
      \<and> file_WriteString endlessWorld (entryPoint endlessWorld)
           (registerControllerSource endlessWorld (withDbImport endlessWorld blogApp)) = None)
   \<and> (\<exists>later. fst (BuildWithin 3 endlessWorld)
         = [RemoveAll ''/go/src/blog/app/tmp'', Mkdir ''/go/src/blog/app/tmp'',
            Create ''/go/src/blog/app/tmp/main.go'',
            WriteString ''/go/src/blog/app/tmp/main.go''
              (registerControllerSource endlessWorld (withDbImport endlessWorld blogApp))] @ later)
   \<and> (\<exists>tr k. Build idleWorld = Some (tr, Built ''/go/bin/blog'')
        \<and> BuildWithin k idleWorld = (tr, Some (Built ''/go/bin/blog''))
        \<and> (\<exists>later. tr = [RemoveAll ''/go/src/blog/app/tmp'', Mkdir ''/go/src/blog/app/tmp'',
             Create ''/go/src/blog/app/tmp/main.go'',
             WriteString ''/go/src/blog/app/tmp/main.go''
               (registerControllerSource idleWorld (withDbImport idleWorld blogApp))] @ later))"
proof -
  note F = updated_world_fields
  note G = failing_world_fields
  have h0: "os_RemoveAll stuckTmpWorld (scratchDir stuckTmpWorld)
     = Some ''unlinkat /go/src/blog/app/tmp: permission denied''"
    by (simp add: G)
  have a0: "os_RemoveAll stuckTmpWorld (scratchDir stuckTmpWorld) \<noteq> None
      \<longrightarrow> os_Mkdir stuckTmpWorld (scratchDir stuckTmpWorld) \<noteq> None"
    by (simp add: G)
  from prepare_failures_are_fatal [OF G(1) a0, THEN conjunct1, rule_format, OF h0]
  have c0: "Build stuckTmpWorld = Some ([RemoveAll ''/go/src/blog/app/tmp'',
        Log ERROR (Sprintln [''Failed to remove tmp dir:'',
          ''unlinkat /go/src/blog/app/tmp: permission denied'']),
        Mkdir ''/go/src/blog/app/tmp'',
        Log ERROR ''Failed to make tmp directory: mkdir /go/src/blog/app/tmp: file exists''],
        Exit)"
    by (simp add: G)
  have h1: "os_Mkdir readOnlyWorld (scratchDir readOnlyWorld)
     = Some ''mkdir /go/src/blog/app/tmp: permission denied''"
    by (simp add: F) (simp add: readOnlyWorld_def)
  have a1: "os_RemoveAll readOnlyWorld (scratchDir readOnlyWorld) \<noteq> None
      \<longrightarrow> os_Mkdir readOnlyWorld (scratchDir readOnlyWorld) \<noteq> None"
    by (simp add: G)
  from prepare_failures_are_fatal [OF F(1) a1, THEN conjunct2, THEN conjunct1, rule_format, OF h1]
  have c1: "Build readOnlyWorld = Some ([RemoveAll ''/go/src/blog/app/tmp'',
        Mkdir ''/go/src/blog/app/tmp'',
        Log ERROR ''Failed to make tmp directory: mkdir /go/src/blog/app/tmp: permission denied''],
        Exit)"
    by (simp add: F)
  have h2: "os_Mkdir noCreateWorld (scratchDir noCreateWorld) = None
      \<and> os_Create noCreateWorld (entryPoint noCreateWorld)
        = Some ''open /go/src/blog/app/tmp/main.go: permission denied''"
    by (simp add: F) (simp add: noCreateWorld_def idleWorld_def sampleWorld_def)
  have a2: "os_RemoveAll noCreateWorld (scratchDir noCreateWorld) \<noteq> None
      \<longrightarrow> os_Mkdir noCreateWorld (scratchDir noCreateWorld) \<noteq> None"
    by (simp add: G)
  from prepare_failures_are_fatal [OF F(2) a2, THEN conjunct2, THEN conjunct2, THEN conjunct1,
      rule_format, OF h2]
  have c2: "Build noCreateWorld = Some ([RemoveAll ''/go/src/blog/app/tmp'',
        Mkdir ''/go/src/blog/app/tmp'', Create ''/go/src/blog/app/tmp/main.go'',
        Log ERROR ''Failed to create main.go: open /go/src/blog/app/tmp/main.go: permission denied''],
        Exit)"
    by (simp add: F)
  have h3: "os_Mkdir diskFullWorld (scratchDir diskFullWorld) = None
      \<and> os_Create diskFullWorld (entryPoint diskFullWorld) = None
      \<and> file_WriteString diskFullWorld (entryPoint diskFullWorld)
           (registerControllerSource diskFullWorld (withDbImport diskFullWorld blogApp))
        = Some ''write /go/src/blog/app/tmp/main.go: no space left on device''"
    by (simp add: F) (simp add: diskFullWorld_def idleWorld_def sampleWorld_def)
  have a3: "os_RemoveAll diskFullWorld (scratchDir diskFullWorld) \<noteq> None
      \<longrightarrow> os_Mkdir diskFullWorld (scratchDir diskFullWorld) \<noteq> None"
    by (simp add: G)
  from prepare_failures_are_fatal [OF F(3) a3, THEN conjunct2, THEN conjunct2, THEN conjunct2,
      THEN conjunct1, rule_format, OF h3]
  have c3: "Build diskFullWorld = Some ([RemoveAll ''/go/src/blog/app/tmp'',
        Mkdir ''/go/src/blog/app/tmp'', Create ''/go/src/blog/app/tmp/main.go'',
        WriteString ''/go/src/blog/app/tmp/main.go''
          (registerControllerSource diskFullWorld (withDbImport diskFullWorld blogApp)),
        Log ERROR ''Failed to write to main.go: write /go/src/blog/app/tmp/main.go: no space left on device''],
        Exit)"
    by (simp add: F)
  have h4: "os_Mkdir endlessWorld (scratchDir endlessWorld) = None
      \<and> os_Create endlessWorld (entryPoint endlessWorld) = None
      \<and> file_WriteString endlessWorld (entryPoint endlessWorld)
           (registerControllerSource endlessWorld (withDbImport endlessWorld blogApp)) = None"
    by (simp add: endlessWorld_def sampleWorld_def)
  have a4: "os_RemoveAll endlessWorld (scratchDir endlessWorld) \<noteq> None
      \<longrightarrow> os_Mkdir endlessWorld (scratchDir endlessWorld) \<noteq> None"
    by (simp add: G)
  from prepare_failures_are_fatal [OF G(2) a4, THEN conjunct2, THEN conjunct2, THEN conjunct2,
      THEN conjunct2, THEN conjunct1, rule_format, OF h4, of 3]
  have c4: "\<exists>later. fst (BuildWithin 3 endlessWorld)
         = [RemoveAll ''/go/src/blog/app/tmp'', Mkdir ''/go/src/blog/app/tmp'',
            Create ''/go/src/blog/app/tmp/main.go'',
            WriteString ''/go/src/blog/app/tmp/main.go''
              (registerControllerSource endlessWorld (withDbImport endlessWorld blogApp))] @ later"
    by (simp add: G)
  have h5: "os_Mkdir idleWorld (scratchDir idleWorld) = None
      \<and> os_Create idleWorld (entryPoint idleWorld) = None
      \<and> file_WriteString idleWorld (entryPoint idleWorld)
           (registerControllerSource idleWorld (withDbImport idleWorld blogApp)) = None"
    by (simp add: idleWorld_def sampleWorld_def)
  have a5: "os_RemoveAll idleWorld (scratchDir idleWorld) \<noteq> None
      \<longrightarrow> os_Mkdir idleWorld (scratchDir idleWorld) \<noteq> None"
    by (simp add: G)
  note T = prepare_failures_are_fatal [OF F(4) a5]
  obtain tr where b: "Build idleWorld = Some (tr, Built ''/go/bin/blog'')"
    using idleWorld_builds by blast
  from T [THEN conjunct2, THEN conjunct2, THEN conjunct2, THEN conjunct2, THEN conjunct2,
      rule_format, of tr "Built ''/go/bin/blog''"] b
  obtain k where k: "BuildWithin k idleWorld = (tr, Some (Built ''/go/bin/blog''))"
    by blast
  from T [THEN conjunct2, THEN conjunct2, THEN conjunct2, THEN conjunct2, THEN conjunct1,
      rule_format, OF h5, of k] k
  have "\<exists>later. tr = [RemoveAll ''/go/src/blog/app/tmp'', Mkdir ''/go/src/blog/app/tmp'',
             Create ''/go/src/blog/app/tmp/main.go'',
             WriteString ''/go/src/blog/app/tmp/main.go''
               (registerControllerSource idleWorld (withDbImport idleWorld blogApp))] @ later"
    by (simp add: F)
  with b k have c5: "\<exists>tr k. Build idleWorld = Some (tr, Built ''/go/bin/blog'')
        \<and> BuildWithin k idleWorld = (tr, Some (Built ''/go/bin/blog''))
        \<and> (\<exists>later. tr = [RemoveAll ''/go/src/blog/app/tmp'', Mkdir ''/go/src/blog/app/tmp'',
             Create ''/go/src/blog/app/tmp/main.go'',
             WriteString ''/go/src/blog/app/tmp/main.go''
               (registerControllerSource idleWorld (withDbImport idleWorld blogApp))] @ later)"
    by blast
  from h0 c0 h1 c1 h2 c2 h3 c3 h4 c4 c5 show ?thesis by blast
qed






end
